theory Spec2Isabelle
  imports Main
begin

section \<open>Python values, exceptions and the operations the extractors use\<close>

text \<open>
  The values that flow through \<^verbatim>\<open>balance_monitor.py\<close> are what \<^verbatim>\<open>json.loads\<close> builds
  (None, bool, int, float, str, list, dict with string keys), the empty string of a failed
  fetch and the numbers returned by \<^verbatim>\<open>sum\<close>. Floating point numbers are kept abstract: the
  type parameter \<open>'f\<close> stands for Python's \<^verbatim>\<open>float\<close>. A dict is an association list in insertion
  order; the lists built here have distinct keys, as a Python dict has.
\<close>

datatype 'f pyval =
    PNone
  | PBool bool
  | PInt int
  | PFloat 'f
  | PStr string
  | PList "'f pyval list"
  | PDict "(string \<times> 'f pyval) list"

text \<open>
  The exceptions of the model are subclasses of \<^verbatim>\<open>Exception\<close>, which is what both
  \<^verbatim>\<open>except Exception\<close> handlers of the source catch. Task cancellation and interpreter exit
  derive from \<^verbatim>\<open>BaseException\<close> only; the program never cancels a task (its signal handler
  only sets the shutdown event), and they are not modelled.
\<close>

datatype error =
    KeyError
  | IndexError
  | TypeError
  | AttributeError
  | ValueError string
  | ClientError
  | JSONDecodeError
  | OSError

definition ebind :: "error + 'a \<Rightarrow> ('a \<Rightarrow> error + 'b) \<Rightarrow> error + 'b" where
  "ebind m f = (case m of Inl e \<Rightarrow> Inl e | Inr x \<Rightarrow> f x)"

fun mapM_err :: "('a \<Rightarrow> error + 'b) \<Rightarrow> 'a list \<Rightarrow> error + 'b list" where
  "mapM_err f [] = Inr []"
| "mapM_err f (x # xs) =
     (case f x of
        Inl e \<Rightarrow> Inl e
      | Inr y \<Rightarrow> (case mapM_err f xs of Inl e \<Rightarrow> Inl e | Inr ys \<Rightarrow> Inr (y # ys)))"

text \<open>\<^verbatim>\<open>x[key]\<close> with a string key: only a dict accepts it.\<close>

fun getitem :: "'f pyval \<Rightarrow> string \<Rightarrow> error + 'f pyval" where
  "getitem (PDict kvs) k = (case map_of kvs k of None \<Rightarrow> Inl KeyError | Some v \<Rightarrow> Inr v)"
| "getitem _ k = Inl TypeError"

text \<open>
  \<^verbatim>\<open>x[0]\<close>: the first element of a list, the first character of a string; a dict built by
  \<^verbatim>\<open>json.loads\<close> has string keys only, so the key 0 is missing.
\<close>

fun getitem0 :: "'f pyval \<Rightarrow> error + 'f pyval" where
  "getitem0 (PList xs) = (case xs of [] \<Rightarrow> Inl IndexError | x # _ \<Rightarrow> Inr x)"
| "getitem0 (PStr s) = (case s of [] \<Rightarrow> Inl IndexError | c # _ \<Rightarrow> Inr (PStr [c]))"
| "getitem0 (PDict kvs) = Inl KeyError"
| "getitem0 _ = Inl TypeError"

text \<open>\<^verbatim>\<open>x.get(key, [])\<close>: only a dict has the method.\<close>

fun dict_get :: "'f pyval \<Rightarrow> string \<Rightarrow> error + 'f pyval" where
  "dict_get (PDict kvs) k = Inr (case map_of kvs k of None \<Rightarrow> PList [] | Some v \<Rightarrow> v)"
| "dict_get _ k = Inl AttributeError"

text \<open>
  Iteration, as the generator expressions do it: a list gives its elements, a dict its keys,
  a string its characters; nothing else is iterable.
\<close>

fun py_iter :: "'f pyval \<Rightarrow> error + 'f pyval list" where
  "py_iter (PList xs) = Inr xs"
| "py_iter (PDict kvs) = Inr (map (\<lambda>kv. PStr (fst kv)) kvs)"
| "py_iter (PStr s) = Inr (map (\<lambda>c. PStr [c]) s)"
| "py_iter _ = Inl TypeError"

text \<open>
  The floating point part of the interpreter is a parameter: \<open>to_float\<close> is the builtin
  \<^verbatim>\<open>float(v)\<close>, which raises on a value it cannot convert, and \<open>fsum\<close> is the float that
  \<^verbatim>\<open>sum\<close> returns for a non-empty sequence of floats (starting from the int 0).
\<close>

record 'f float_ops =
  to_float :: "'f pyval \<Rightarrow> error + 'f"
  fsum :: "'f list \<Rightarrow> 'f"

text \<open>\<^verbatim>\<open>sum(...)\<close> of floats: the start value, the int 0, is returned when there is no item.\<close>

definition py_sum :: "'f float_ops \<Rightarrow> 'f list \<Rightarrow> 'f pyval" where
  "py_sum fo fs = (if fs = [] then PInt 0 else PFloat (fsum fo fs))"

text \<open>
  An instance used to evaluate examples only: floats that are whole numbers. A string of
  decimal digits converts to its value and any other string raises \<^verbatim>\<open>ValueError\<close>. This is
  not the whole of Python's \<^verbatim>\<open>float\<close>, which also reads signs, fractions, exponents and
  surrounding blanks and rounds to a double; the examples use digit strings of small
  numbers, on which the two agree.
\<close>

definition digit_val :: "char \<Rightarrow> int" where
  "digit_val c = int (of_char c) - 48"

definition is_digit :: "char \<Rightarrow> bool" where
  "is_digit c = (48 \<le> (of_char c :: nat) \<and> (of_char c :: nat) \<le> 57)"

fun whole_to_float :: "int pyval \<Rightarrow> error + int" where
  "whole_to_float (PInt i) = Inr i"
| "whole_to_float (PFloat f) = Inr f"
| "whole_to_float (PBool b) = Inr (if b then 1 else 0)"
| "whole_to_float (PStr s) =
     (if s \<noteq> [] \<and> list_all is_digit s
      then Inr (foldl (\<lambda>acc c. 10 * acc + digit_val c) 0 s)
      else Inl (ValueError ''could not convert string to float''))"
| "whole_to_float _ = Inl TypeError"

definition whole_floats :: "int float_ops" where
  "whole_floats = \<lparr>to_float = whole_to_float, fsum = sum_list\<rparr>"

section \<open>The six extraction rules\<close>

text \<open>
  The lambdas of the \<^verbatim>\<open>endpoints\<close> list in \<^verbatim>\<open>fetch_data_for_account\<close>, named after their
  columns. A raise inside a generator expression ends \<^verbatim>\<open>sum\<close> at the first failing item.
\<close>

definition extract_account_balance :: "'f pyval \<Rightarrow> error + 'f pyval" where
  "extract_account_balance x = ebind (getitem x ''balance'') (\<lambda>b. getitem b ''amount'')"

definition extract_rewards :: "'f float_ops \<Rightarrow> 'f pyval \<Rightarrow> error + 'f pyval" where
  "extract_rewards fo x =
     ebind (dict_get x ''total'') (\<lambda>t.
     ebind (py_iter t) (\<lambda>items.
     ebind (mapM_err (\<lambda>reward. ebind (getitem reward ''amount'') (to_float fo)) items) (\<lambda>fs.
     Inr (py_sum fo fs))))"

definition extract_outstanding_rewards :: "'f pyval \<Rightarrow> error + 'f pyval" where
  "extract_outstanding_rewards x =
     ebind (getitem x ''rewards'') (\<lambda>r.
     ebind (getitem r ''rewards'') (\<lambda>rs.
     ebind (getitem0 rs) (\<lambda>r0. getitem r0 ''amount'')))"

definition extract_available_tips :: "'f float_ops \<Rightarrow> 'f pyval \<Rightarrow> error + 'f pyval" where
  "extract_available_tips fo x =
     ebind (dict_get x ''tips'') (\<lambda>t.
     ebind (py_iter t) (\<lambda>items.
     ebind (mapM_err (\<lambda>tip. ebind (getitem tip ''amount'') (\<lambda>a.
                              ebind (getitem a ''amount'') (to_float fo))) items) (\<lambda>fs.
     Inr (py_sum fo fs))))"

definition extract_delegator_shares :: "'f pyval \<Rightarrow> error + 'f pyval" where
  "extract_delegator_shares x =
     ebind (getitem x ''validator'') (\<lambda>v. getitem v ''delegator_shares'')"

definition extract_delegations :: "'f float_ops \<Rightarrow> 'f pyval \<Rightarrow> error + 'f pyval" where
  "extract_delegations fo x =
     ebind (getitem x ''delegation_responses'') (\<lambda>ds.
     ebind (py_iter ds) (\<lambda>items.
     ebind (mapM_err (\<lambda>delegation. ebind (getitem delegation ''balance'') (\<lambda>b.
                                     ebind (getitem b ''amount'') (to_float fo))) items) (\<lambda>fs.
     Inr (py_sum fo fs))))"


section \<open>Extraction paths\<close>

text \<open>
  The path of keys that a rule reads in a response body, as the specification speaks of it:
  \<open>key_value x k\<close> is the value under the key \<open>k\<close> of an object and nothing when \<open>x\<close> is
  not an object or has no such key; \<open>follow_path\<close> follows a list of keys and gives nothing
  as soon as one of them is missing.
\<close>

fun key_value :: "'f pyval \<Rightarrow> string \<Rightarrow> 'f pyval option" where
  "key_value (PDict kvs) k = map_of kvs k"
| "key_value _ k = None"

fun follow_path :: "'f pyval \<Rightarrow> string list \<Rightarrow> 'f pyval option" where
  "follow_path x [] = Some x"
| "follow_path x (k # ks) = (case key_value x k of None \<Rightarrow> None | Some y \<Rightarrow> follow_path y ks)"

section \<open>Diagnostic output\<close>

text \<open>
  Every \<^verbatim>\<open>print\<close> writes to the standard output, and the write can raise (a closed stream, a
  full device, a text that the stream's encoding rejects). The statements that print are
  named by their place in the source; those of \<^verbatim>\<open>fetch_endpoint\<close> carry the column of the
  call. The standard output is an input: for each statement, the exception that its print
  raises, if any. The text that is printed is not modelled.
\<close>

datatype print_site =
    AtAccount
  | AtAddress
  | AtValoper
  | AtFetching string
  | AtStatus string
  | AtErrorResponse string
  | AtResponseData string
  | AtExtracted string
  | AtErrorProcessing string
  | AtDataSaved
  | AtLoopError

definition py_print :: "(print_site \<Rightarrow> error option) \<Rightarrow> print_site \<Rightarrow> error + unit" where
  "py_print out site = (case out site of None \<Rightarrow> Inr () | Some e \<Rightarrow> Inl e)"

section \<open>The field fetcher\<close>

text \<open>
  What the network does is an input. \<^verbatim>\<open>session.get(endpoint)\<close> either raises or gives a
  response with a status; reading the body as text (done on a status other than 200) and
  as JSON may each raise.
\<close>

record 'f response =
  status :: int
  response_text :: "error + string"
  response_json :: "error + 'f pyval"

datatype 'f get_result = Raises error | Responds "'f response"

text \<open>The body of the \<^verbatim>\<open>try\<close> block of \<^verbatim>\<open>fetch_endpoint\<close>, print by print.\<close>

definition fetch_endpoint_try ::
  "(print_site \<Rightarrow> error option) \<Rightarrow> (string \<Rightarrow> 'f get_result) \<Rightarrow> string \<Rightarrow> string
     \<Rightarrow> ('f pyval \<Rightarrow> error + 'f pyval) \<Rightarrow> error + (string \<times> 'f pyval)" where
  "fetch_endpoint_try out session_get endpoint column extract_func =
     (case session_get endpoint of
        Raises e \<Rightarrow> Inl e
      | Responds r \<Rightarrow>
          ebind (py_print out (AtFetching column)) (\<lambda>u1.
          ebind (py_print out (AtStatus column)) (\<lambda>u2.
          if status r \<noteq> 200
          then ebind (response_text r) (\<lambda>error_text.
               ebind (py_print out (AtErrorResponse column)) (\<lambda>u3.
               Inr (column, PStr '''')))
          else ebind (response_json r) (\<lambda>data.
               ebind (py_print out (AtResponseData column)) (\<lambda>u3.
               ebind (extract_func data) (\<lambda>v.
               ebind (py_print out (AtExtracted column)) (\<lambda>u4.
               Inr (column, v))))))))"

text \<open>
  \<^verbatim>\<open>fetch_endpoint\<close>: the \<^verbatim>\<open>try\<close> block under its \<^verbatim>\<open>except Exception\<close> handler. The
  handler prints before it returns, and nothing catches what that print raises.
\<close>

definition fetch_endpoint ::
  "(print_site \<Rightarrow> error option) \<Rightarrow> (string \<Rightarrow> 'f get_result) \<Rightarrow> string \<Rightarrow> string
     \<Rightarrow> ('f pyval \<Rightarrow> error + 'f pyval) \<Rightarrow> error + (string \<times> 'f pyval)" where
  "fetch_endpoint out session_get endpoint column extract_func =
     (case fetch_endpoint_try out session_get endpoint column extract_func of
        Inl e \<Rightarrow> ebind (py_print out (AtErrorProcessing column)) (\<lambda>u. Inr (column, PStr ''''))
      | Inr r \<Rightarrow> Inr r)"

section \<open>Accounts and the startup check\<close>

text \<open>
  An account is a dict of three values read with \<^verbatim>\<open>os.getenv\<close>, each a string or None.
  An f-string shows None as the text \<^verbatim>\<open>None\<close>.
\<close>

record account =
  name :: "string option"
  address :: "string option"
  valoper_address :: "string option"

definition py_format :: "string option \<Rightarrow> string" where
  "py_format v = (case v of None \<Rightarrow> ''None'' | Some s \<Rightarrow> s)"

definition ACCOUNTS :: "(string \<Rightarrow> string option) \<Rightarrow> account list" where
  "ACCOUNTS getenv =
     [\<lparr>name = getenv ''ACCOUNT_NAME1'', address = getenv ''TELLOR_ADDRESS1'',
       valoper_address = getenv ''TELLORVALOPER_ADDRESS1''\<rparr>,
      \<lparr>name = getenv ''ACCOUNT_NAME2'', address = getenv ''TELLOR_ADDRESS2'',
       valoper_address = getenv ''TELLORVALOPER_ADDRESS2''\<rparr>,
      \<lparr>name = getenv ''ACCOUNT_NAME3'', address = getenv ''TELLOR_ADDRESS3'',
       valoper_address = getenv ''TELLORVALOPER_ADDRESS3''\<rparr>,
      \<lparr>name = getenv ''ACCOUNT_NAME4'', address = getenv ''TELLOR_ADDRESS4'',
       valoper_address = getenv ''TELLORVALOPER_ADDRESS4''\<rparr>]"

text \<open>Truth value of a \<^verbatim>\<open>getenv\<close> result: None and the empty string are false.\<close>

definition truthy :: "string option \<Rightarrow> bool" where
  "truthy v = (case v of None \<Rightarrow> False | Some s \<Rightarrow> s \<noteq> [])"

text \<open>\<^verbatim>\<open>all(account.values())\<close>\<close>

definition all_values :: "account \<Rightarrow> bool" where
  "all_values a = (truthy (name a) \<and> truthy (address a) \<and> truthy (valoper_address a))"

text \<open>The module-level loop over \<^verbatim>\<open>ACCOUNTS\<close>; it raises at the first incomplete account.\<close>

fun check_accounts :: "account list \<Rightarrow> error + unit" where
  "check_accounts [] = Inr ()"
| "check_accounts (a # as) =
     (if \<not> all_values a
      then Inl (ValueError (''Missing required environment variables for account ''
                  @ py_format (name a) @ ''. Please check your .env file.''))
      else check_accounts as)"

text \<open>
  The program from its start to the creation of the monitoring tasks: the module body runs
  the check, and only then can \<^verbatim>\<open>main\<close> run \<^verbatim>\<open>main_loop\<close>, which creates one
  \<^verbatim>\<open>monitor_account\<close> task for each account.
\<close>

datatype startup = Fatal error | Monitoring "account list"

definition main_loop_tasks :: "account list \<Rightarrow> account list" where
  "main_loop_tasks accounts = map (\<lambda>account. account) accounts"

definition program_start :: "(string \<Rightarrow> string option) \<Rightarrow> startup" where
  "program_start getenv =
     (case check_accounts (ACCOUNTS getenv) of
        Inl e \<Rightarrow> Fatal e
      | Inr u \<Rightarrow> Monitoring (main_loop_tasks (ACCOUNTS getenv)))"

section \<open>The account snapshot builder\<close>

definition base_url :: string where
  "base_url = ''https://info.layer-node.com''"

definition endpoints ::
  "'f float_ops \<Rightarrow> account \<Rightarrow> (string \<times> string \<times> ('f pyval \<Rightarrow> error + 'f pyval)) list" where
  "endpoints fo account =
     [(base_url @ ''/cosmos/bank/v1beta1/balances/'' @ py_format (address account)
         @ ''/by_denom?denom=loya'',
       ''account_balance'', extract_account_balance),
      (base_url @ ''/cosmos/distribution/v1beta1/delegators/'' @ py_format (address account)
         @ ''/rewards'',
       ''rewards'', extract_rewards fo),
      (base_url @ ''/cosmos/distribution/v1beta1/validators/''
         @ py_format (valoper_address account) @ ''/outstanding_rewards'',
       ''outstanding_rewards'', extract_outstanding_rewards),
      (base_url @ ''/tellor-io/layer/reporter/available-tips/'' @ py_format (address account),
       ''available-tips'', extract_available_tips fo),
      (base_url @ ''/cosmos/staking/v1beta1/validators/''
         @ py_format (valoper_address account),
       ''delegator_shares'', extract_delegator_shares),
      (base_url @ ''/cosmos/staking/v1beta1/delegations/'' @ py_format (address account),
       ''delegations'', extract_delegations fo)]"

text \<open>\<^verbatim>\<open>d[k] = v\<close> on a dict in insertion order: a present key keeps its place.\<close>

fun dict_set :: "(string \<times> 'v) list \<Rightarrow> string \<Rightarrow> 'v \<Rightarrow> (string \<times> 'v) list" where
  "dict_set [] k v = [(k, v)]"
| "dict_set ((k', v') # kvs) k v =
     (if k' = k then (k, v) # kvs else (k', v') # dict_set kvs k v)"

text \<open>
  The surroundings of one call of \<^verbatim>\<open>fetch_data_for_account\<close>: the formatted time of
  \<^verbatim>\<open>datetime.now()\<close>, whether opening the \<^verbatim>\<open>aiohttp.ClientSession\<close> raises, what each GET
  of the session does, and what the standard output does.
\<close>

record 'f world =
  now :: string
  session_error :: "error option"
  session_get :: "string \<Rightarrow> 'f get_result"
  stdout :: "print_site \<Rightarrow> error option"

text \<open>
  \<^verbatim>\<open>asyncio.gather\<close> without \<^verbatim>\<open>return_exceptions\<close>: the results in the order of the tasks,
  or an exception that one of them raised (here that of the first such task of the list).
\<close>

definition gather :: "(error + 'a) list \<Rightarrow> error + 'a list" where
  "gather tasks = mapM_err (\<lambda>t. t) tasks"

text \<open>The three prints at the head of \<^verbatim>\<open>fetch_data_for_account\<close>.\<close>

definition account_prints :: "'f world \<Rightarrow> error + unit" where
  "account_prints w =
     ebind (py_print (stdout w) AtAccount) (\<lambda>u1.
     ebind (py_print (stdout w) AtAddress) (\<lambda>u2.
     py_print (stdout w) AtValoper))"

definition fetch_data_for_account ::
  "'f float_ops \<Rightarrow> 'f world \<Rightarrow> account \<Rightarrow> error + (string \<times> 'f pyval) list" where
  "fetch_data_for_account fo w account =
     ebind (account_prints w) (\<lambda>u.
     let results = [(''timestamp'', PStr (now w))] in
     case session_error w of
       Some e \<Rightarrow> Inl e
     | None \<Rightarrow>
         ebind (gather (map (\<lambda>(endpoint, column, extract_func).
                               fetch_endpoint (stdout w) (session_get w) endpoint column
                                 extract_func)
                            (endpoints fo account)))
           (\<lambda>responses. Inr (foldl (\<lambda>res (column, v). dict_set res column v)
                                    results responses)))"

section \<open>The CSV appender\<close>

text \<open>
  A CSV file is the list of the rows written to it, each row the list of its cells; the
  text encoding of \<^verbatim>\<open>csv\<close> is not modelled. A path that \<open>files\<close> maps to a value exists;
  an empty list is a file of zero bytes. \<open>open_error\<close> is what \<^verbatim>\<open>open(filename, 'a')\<close>
  raises for a path, if anything (a directory, missing permissions). \<open>write_error\<close> is what
  the writes to the opened file raise, if anything, in \<^verbatim>\<open>writeheader\<close>, in \<^verbatim>\<open>writerow\<close> or
  when the \<^verbatim>\<open>with\<close> block closes the file (a full device, a cell that the encoding
  rejects), with the number of the call's rows that are in the file afterwards; a row cut
  short is not represented.
\<close>

record 'f filesystem =
  files :: "string \<rightharpoonup> 'f pyval list list"
  open_error :: "string \<Rightarrow> error option"
  write_error :: "string \<Rightarrow> (error \<times> nat) option"

text \<open>\<^verbatim>\<open>Path(filename).exists()\<close>\<close>

definition path_exists :: "'f filesystem \<Rightarrow> string \<Rightarrow> bool" where
  "path_exists fs filename = (files fs filename \<noteq> None)"

text \<open>
  The rows of \<^verbatim>\<open>csv.DictWriter\<close> with \<^verbatim>\<open>fieldnames = data.keys()\<close>: the header is the field
  names, a data row is \<^verbatim>\<open>data.get(key, '')\<close> for each field name in order. No key of the
  row is outside the field names, so the writer's check for extra keys never raises.
\<close>

definition header_row :: "(string \<times> 'f pyval) list \<Rightarrow> 'f pyval list" where
  "header_row data = map PStr (map fst data)"

definition data_row :: "(string \<times> 'f pyval) list \<Rightarrow> 'f pyval list" where
  "data_row data =
     map (\<lambda>key. case map_of data key of None \<Rightarrow> PStr '''' | Some v \<Rightarrow> v) (map fst data)"

text \<open>
  \<^verbatim>\<open>save_to_csv\<close>. Opening in append mode creates a missing file, empty, and leaves the
  rows of an existing file in place. A call that raises returns the exception with the file
  system it leaves behind.
\<close>

definition save_to_csv ::
  "(string \<times> 'f pyval) list \<Rightarrow> string \<Rightarrow> 'f filesystem
     \<Rightarrow> (error \<times> 'f filesystem) + 'f filesystem" where
  "save_to_csv data filename fs =
     (let file_exists = path_exists fs filename in
      case open_error fs filename of
        Some e \<Rightarrow> Inl (e, fs)
      | None \<Rightarrow>
          (let f = (case files fs filename of None \<Rightarrow> [] | Some rows \<Rightarrow> rows);
               written = (if \<not> file_exists then [header_row data] else []) @ [data_row data]
           in case write_error fs filename of
                Some (e, k) \<Rightarrow> Inl (e, fs\<lparr>files := (files fs)(filename \<mapsto> f @ take k written)\<rparr>)
              | None \<Rightarrow> Inr (fs\<lparr>files := (files fs)(filename \<mapsto> f @ written)\<rparr>)))"

text \<open>Successive calls of \<^verbatim>\<open>save_to_csv\<close> on one path, stopping at the first that raises.\<close>

fun save_all ::
  "(string \<times> 'f pyval) list list \<Rightarrow> string \<Rightarrow> 'f filesystem
     \<Rightarrow> (error \<times> 'f filesystem) + 'f filesystem" where
  "save_all [] filename fs = Inr fs"
| "save_all (d # ds) filename fs =
     (case save_to_csv d filename fs of Inl x \<Rightarrow> Inl x | Inr fs' \<Rightarrow> save_all ds filename fs')"

section \<open>The account monitor loop\<close>

text \<open>
  What a monitor does is recorded as a trace: each read of \<^verbatim>\<open>shutdown_event.is_set()\<close> with
  its answer, each GET with its endpoint (in the order of the task list), each completed
  write, the two prints of the loop when they complete, and each \<^verbatim>\<open>asyncio.sleep\<close> with
  its seconds.
\<close>

datatype event =
    Poll bool
  | Get string
  | Wrote string
  | PrintSaved string string
  | PrintError string error
  | Sleep nat

record 'f mstate =
  fs :: "'f filesystem"
  trace :: "event list"

definition emit :: "event list \<Rightarrow> 'f mstate \<Rightarrow> 'f mstate" where
  "emit es s = s\<lparr>trace := trace s @ es\<rparr>"

text \<open>
  The GETs that one call of \<^verbatim>\<open>fetch_data_for_account\<close> issues: all six once the three
  prints are done and the session is open, none otherwise.
\<close>

definition fetch_events :: "'f float_ops \<Rightarrow> 'f world \<Rightarrow> account \<Rightarrow> event list" where
  "fetch_events fo w account =
     (case account_prints w of
        Inl e \<Rightarrow> []
      | Inr u \<Rightarrow>
          (case session_error w of
             Some e \<Rightarrow> []
           | None \<Rightarrow> map (\<lambda>(endpoint, column, extract_func). Get endpoint)
                       (endpoints fo account)))"

text \<open>
  The \<^verbatim>\<open>try\<close> block of the loop body: the new state, or the exception with the state
  reached when it was raised. The print of the saved message is inside the block; its
  \<^verbatim>\<open>data['timestamp']\<close> is shown when it is a string.
\<close>

definition monitor_try ::
  "'f float_ops \<Rightarrow> 'f world \<Rightarrow> account \<Rightarrow> 'f mstate \<Rightarrow> (error \<times> 'f mstate) + 'f mstate" where
  "monitor_try fo w account s =
     (let filename = py_format (name account) @ ''.csv'';
          s1 = emit (fetch_events fo w account) s
      in case fetch_data_for_account fo w account of
           Inl e \<Rightarrow> Inl (e, s1)
         | Inr data \<Rightarrow>
             (case save_to_csv data filename (fs s1) of
                Inl (e, fs') \<Rightarrow> Inl (e, s1\<lparr>fs := fs'\<rparr>)
              | Inr fs' \<Rightarrow>
                  (let s2 = emit [Wrote filename] (s1\<lparr>fs := fs'\<rparr>) in
                   case map_of data ''timestamp'' of
                     None \<Rightarrow> Inl (KeyError, s2)
                   | Some t \<Rightarrow>
                       (case py_print (stdout w) AtDataSaved of
                          Inl e \<Rightarrow> Inl (e, s2)
                        | Inr u \<Rightarrow>
                            Inr (emit [PrintSaved filename
                                         (case t of PStr ts \<Rightarrow> ts | _ \<Rightarrow> ''''),
                                       Sleep 300] s2)))))"

text \<open>
  One pass through the loop body: the \<^verbatim>\<open>try\<close> block under its handler. The handler
  prints and then sleeps; what its print raises leaves the loop and the coroutine.
\<close>

definition monitor_body ::
  "'f float_ops \<Rightarrow> 'f world \<Rightarrow> account \<Rightarrow> 'f mstate \<Rightarrow> (error \<times> 'f mstate) + 'f mstate" where
  "monitor_body fo w account s =
     (case monitor_try fo w account s of
        Inl (e, s1) \<Rightarrow>
          (case py_print (stdout w) AtLoopError of
             Inl e' \<Rightarrow> Inl (e', s1)
           | Inr u \<Rightarrow> Inr (emit [PrintError (py_format (name account)) e, Sleep 60] s1))
      | Inr s2 \<Rightarrow> Inr s2)"

text \<open>
  \<^verbatim>\<open>monitor_account\<close>. The loop may run forever, so it runs on fuel: one unit for each
  evaluation of the loop condition, and None when the fuel ends with the loop still
  running. A run that ends has either left the loop at its condition or raised.
  \<open>is_set k\<close> is the answer of \<^verbatim>\<open>shutdown_event.is_set()\<close> at evaluation number
  \<open>k\<close> of the loop condition, \<open>env k\<close> the surroundings of the pass that follows it.
\<close>

datatype 'f outcome = Stopped "'f mstate" | Raised error "'f mstate"

fun final_state :: "'f outcome \<Rightarrow> 'f mstate" where
  "final_state (Stopped s) = s"
| "final_state (Raised e s) = s"

fun monitor_account ::
  "nat \<Rightarrow> 'f float_ops \<Rightarrow> (nat \<Rightarrow> bool) \<Rightarrow> (nat \<Rightarrow> 'f world) \<Rightarrow> account \<Rightarrow> nat \<Rightarrow> 'f mstate
     \<Rightarrow> 'f outcome option" where
  "monitor_account 0 fo is_set env account k s = None"
| "monitor_account (Suc n) fo is_set env account k s =
     (if is_set k then Some (Stopped (emit [Poll True] s))
      else (case monitor_body fo (env k) account (emit [Poll False] s) of
              Inl (e, s') \<Rightarrow> Some (Raised e s')
            | Inr s' \<Rightarrow> monitor_account n fo is_set env account (Suc k) s'))"

text \<open>Reads of the shutdown event and sleeps, among the events of a trace.\<close>

fun is_poll :: "event \<Rightarrow> bool" where
  "is_poll (Poll b) = True"
| "is_poll _ = False"

fun is_sleep :: "event \<Rightarrow> bool" where
  "is_sleep (Sleep d) = True"
| "is_sleep _ = False"

text \<open>
  The polling that the specification's data model describes for the Shutdown Signal, as a
  property of a trace: at every sleep, the event immediately before it and the event
  immediately after it are reads of the signal.
\<close>

definition polled_around_sleeps :: "event list \<Rightarrow> bool" where
  "polled_around_sleeps t =
     list_all (\<lambda>i. 0 < i \<and> is_poll (t ! (i - 1)) \<and> Suc i < length t \<and> is_poll (t ! Suc i))
       (filter (\<lambda>i. is_sleep (t ! i)) [0..<length t])"

section \<open>Concrete inputs\<close>

text \<open>
  An account, responses and surroundings on which the results below are evaluated. \<open>serve\<close>
  answers the six endpoints of an account with the given results, in the order of the
  endpoint list, and refuses the connection to any other address. \<open>working_stdout\<close>
  accepts every print, \<open>closed_stdout\<close> raises at every print.
\<close>

definition example_account :: account where
  "example_account = \<lparr>name = Some ''A'', address = Some ''addr1'', valoper_address = Some ''val1''\<rparr>"

definition ok :: "'f pyval \<Rightarrow> 'f get_result" where
  "ok body = Responds \<lparr>status = 200, response_text = Inr ''(body)'', response_json = Inr body\<rparr>"

definition http_error :: "int \<Rightarrow> 'f get_result" where
  "http_error code =
     Responds \<lparr>status = code, response_text = Inr ''error'', response_json = Inl JSONDecodeError\<rparr>"

definition working_stdout :: "print_site \<Rightarrow> error option" where
  "working_stdout site = None"

definition closed_stdout :: "print_site \<Rightarrow> error option" where
  "closed_stdout site = Some (ValueError ''I/O operation on closed file'')"

text \<open>A standard output that raises at the prints of one statement only.\<close>

definition failing_at :: "print_site \<Rightarrow> print_site \<Rightarrow> error option" where
  "failing_at bad site =
     (if site = bad then Some (ValueError ''I/O operation on closed file'') else None)"

definition serve :: "account \<Rightarrow> int get_result list \<Rightarrow> string \<Rightarrow> int get_result" where
  "serve a rs url =
     (case map_of (zip (map fst (endpoints whole_floats a)) rs) url of
        None \<Rightarrow> Raises ClientError
      | Some r \<Rightarrow> r)"

definition good_bodies :: "int pyval list" where
  "good_bodies =
     [PDict [(''balance'', PDict [(''denom'', PStr ''loya''), (''amount'', PStr ''100'')])],
      PDict [(''rewards'', PList []),
             (''total'', PList [PDict [(''denom'', PStr ''loya''), (''amount'', PStr ''5'')]])],
      PDict [(''rewards'', PDict [(''rewards'',
               PList [PDict [(''denom'', PStr ''loya''), (''amount'', PStr ''2'')]])])],
      PDict [(''tips'', PList [PDict [(''amount'', PDict [(''amount'', PStr ''1'')])]])],
      PDict [(''validator'', PDict [(''delegator_shares'', PStr ''1000'')])],
      PDict [(''delegation_responses'',
               PList [PDict [(''balance'', PDict [(''denom'', PStr ''loya''),
                                                  (''amount'', PStr ''50'')])]])]]"

definition good_world :: "int world" where
  "good_world =
     \<lparr>now = ''2024-05-01 12:00:00'', session_error = None,
      session_get = serve example_account (map ok good_bodies), stdout = working_stdout\<rparr>"

text \<open>The same, with the \<^verbatim>\<open>rewards\<close> endpoint answering HTTP 500.\<close>

definition rewards_500_world :: "int world" where
  "rewards_500_world =
     \<lparr>now = ''2024-05-01 12:05:00'', session_error = None,
      session_get = serve example_account ((map ok good_bodies)[1 := http_error 500]),
      stdout = working_stdout\<rparr>"

text \<open>Every endpoint answers 200 with the empty JSON object.\<close>

definition empty_object_world :: "int world" where
  "empty_object_world =
     \<lparr>now = ''2024-05-01 12:10:00'', session_error = None,
      session_get = (\<lambda>url. ok (PDict [])), stdout = working_stdout\<rparr>"



text \<open>
  File systems: one without files, one on which nothing can be opened, and one holding a
  file of zero bytes.
\<close>

definition fresh_fs :: "int filesystem" where
  "fresh_fs = \<lparr>files = Map.empty, open_error = (\<lambda>path. None), write_error = (\<lambda>path. None)\<rparr>"


definition empty_file_fs :: "int filesystem" where
  "empty_file_fs =
     \<lparr>files = [''A.csv'' \<mapsto> []], open_error = (\<lambda>path. None), write_error = (\<lambda>path. None)\<rparr>"

definition start_state :: "int filesystem \<Rightarrow> int mstate" where
  "start_state f = \<lparr>fs = f, trace = []\<rparr>"

text \<open>The snapshots of \<open>good_world\<close> and \<open>rewards_500_world\<close>.\<close>

definition good_snapshot :: "(string \<times> int pyval) list" where
  "good_snapshot =
     [(''timestamp'', PStr ''2024-05-01 12:00:00''), (''account_balance'', PStr ''100''),
      (''rewards'', PFloat 5), (''outstanding_rewards'', PStr ''2''),
      (''available-tips'', PFloat 1), (''delegator_shares'', PStr ''1000''),
      (''delegations'', PFloat 50)]"

definition rewards_500_snapshot :: "(string \<times> int pyval) list" where
  "rewards_500_snapshot =
     [(''timestamp'', PStr ''2024-05-01 12:05:00''), (''account_balance'', PStr ''100''),
      (''rewards'', PStr ''''), (''outstanding_rewards'', PStr ''2''),
      (''available-tips'', PFloat 1), (''delegator_shares'', PStr ''1000''),
      (''delegations'', PFloat 50)]"


text \<open>
  Environments that set every variable, that lack the address of the third account, and
  that set the validator address of the second account to the empty string.
\<close>

definition full_env :: "string \<Rightarrow> string option" where
  "full_env var = Some (''value-of-'' @ var)"

definition partial_env :: "string \<Rightarrow> string option" where
  "partial_env var = (if var = ''TELLOR_ADDRESS3'' then None else Some (''value-of-'' @ var))"

definition empty_value_env :: "string \<Rightarrow> string option" where
  "empty_value_env var =
     (if var = ''TELLORVALOPER_ADDRESS2'' then Some '''' else Some (''value-of-'' @ var))"


section \<open>What the field fetcher returns and raises\<close>

lemma py_print_ok [simp]: "out site = None \<Longrightarrow> py_print out site = Inr ()"
  by (simp add: py_print_def)

lemma py_print_raises [simp]: "out site = Some e \<Longrightarrow> py_print out site = Inl e"
  by (simp add: py_print_def)

lemma fetch_endpoint_try_column:
  "fetch_endpoint_try out g ep col ex = Inr r \<Longrightarrow> fst r = col"
  by (auto simp: fetch_endpoint_try_def ebind_def
           split: get_result.splits if_splits sum.splits)

lemma fetch_endpoint_eq:
  assumes "out (AtErrorProcessing col) = None"
  shows "fetch_endpoint out g ep col ex =
     Inr (col, case fetch_endpoint_try out g ep col ex of
                 Inl e \<Rightarrow> PStr '''' | Inr r \<Rightarrow> snd r)"
  using assms fetch_endpoint_try_column[of out g ep col ex]
  by (cases "fetch_endpoint_try out g ep col ex") (auto simp: fetch_endpoint_def ebind_def)

lemma fetch_endpoint_InrD:
  assumes "fetch_endpoint out g ep col ex = Inr r"
  shows "r = (col, case fetch_endpoint_try out g ep col ex of
                     Inl e \<Rightarrow> PStr '''' | Inr r' \<Rightarrow> snd r')"
  using assms fetch_endpoint_try_column[of out g ep col ex]
  by (cases "fetch_endpoint_try out g ep col ex")
     (auto simp: fetch_endpoint_def ebind_def py_print_def split: option.splits)

text \<open>The only exception that leaves \<open>fetch_endpoint\<close> is one raised by the handler's print.\<close>

lemma fetch_endpoint_InlD:
  assumes "fetch_endpoint out g ep col ex = Inl e"
  shows "out (AtErrorProcessing col) = Some e \<and>
         (\<exists>e'. fetch_endpoint_try out g ep col ex = Inl e')"
  using assms
  by (cases "fetch_endpoint_try out g ep col ex")
     (auto simp: fetch_endpoint_def ebind_def py_print_def split: option.splits)

text \<open>
  C1, as stated, fails. The GET raises, the handler catches the exception and prints, the
  standard output is closed and the print raises: the exception of the print reaches the
  caller of \<open>fetch_endpoint\<close>.
\<close>

theorem handler_print_raises_counterexample:
  "fetch_endpoint closed_stdout (\<lambda>url. Raises ClientError)
     ''https://info.layer-node.com/cosmos/distribution/v1beta1/delegators/addr1/rewards''
     ''rewards'' (extract_rewards whole_floats)
   = Inl (ValueError ''I/O operation on closed file'')"
  by (simp add: fetch_endpoint_def fetch_endpoint_try_def closed_stdout_def ebind_def)

text \<open>
  C1, amended. When the print of the \<^verbatim>\<open>except\<close> handler completes, \<open>fetch_endpoint\<close> returns
  a pair and raises nothing, whatever the GET, the body, the extraction rule and the other
  prints do: the column with the empty string when the GET raised, when the status is not
  200, when the body could not be read as JSON, when the extraction rule raised or when
  one of the prints inside the \<^verbatim>\<open>try\<close> block raised, and the column with the extracted
  value otherwise.
\<close>

theorem fetch_endpoint_returns_when_handler_prints:
  assumes "out (AtErrorProcessing col) = None"
  shows "fetch_endpoint out g ep col ex =
     Inr (col,
       case g ep of
         Raises e \<Rightarrow> PStr ''''
       | Responds r \<Rightarrow>
           if out (AtFetching col) \<noteq> None \<or> out (AtStatus col) \<noteq> None then PStr ''''
           else if status r \<noteq> 200 then PStr ''''
           else (case response_json r of
                   Inl e \<Rightarrow> PStr ''''
                 | Inr data \<Rightarrow>
                     if out (AtResponseData col) \<noteq> None then PStr ''''
                     else (case ex data of
                             Inl e \<Rightarrow> PStr ''''
                           | Inr v \<Rightarrow> if out (AtExtracted col) \<noteq> None then PStr '''' else v)))"
  using assms
  by (auto simp: fetch_endpoint_def fetch_endpoint_try_def ebind_def py_print_def
           split: get_result.splits sum.splits option.splits)

theorem fetch_endpoint_returns_when_handler_prints_witness:
  "fetch_endpoint working_stdout (\<lambda>url. Raises ClientError) ''u'' ''rewards''
       (extract_rewards whole_floats)
     = Inr (''rewards'', PStr '''') \<and>
   fetch_endpoint working_stdout (\<lambda>url. http_error 500) ''u'' ''rewards''
       (extract_rewards whole_floats)
     = Inr (''rewards'', PStr '''') \<and>
   fetch_endpoint working_stdout (\<lambda>url. ok (PList [])) ''u'' ''account_balance''
       (extract_account_balance :: int pyval \<Rightarrow> error + int pyval)
     = Inr (''account_balance'', PStr '''') \<and>
   fetch_endpoint (failing_at (AtStatus ''account_balance''))
       (\<lambda>url. ok (PDict [(''balance'', PDict [(''amount'', PStr ''100'')])]))
       ''u'' ''account_balance'' (extract_account_balance :: int pyval \<Rightarrow> error + int pyval)
     = Inr (''account_balance'', PStr '''') \<and>
   fetch_endpoint working_stdout
       (\<lambda>url. ok (PDict [(''balance'', PDict [(''amount'', PStr ''100'')])]))
       ''u'' ''account_balance'' (extract_account_balance :: int pyval \<Rightarrow> error + int pyval)
     = Inr (''account_balance'', PStr ''100'')"
proof -
  have w: "\<And>c. working_stdout (AtErrorProcessing c) = None"
    by (simp add: working_stdout_def)
  have f: "failing_at (AtStatus ''account_balance'') (AtErrorProcessing ''account_balance'')
             = None"
    by (simp add: failing_at_def)
  note t = fetch_endpoint_returns_when_handler_prints
  show ?thesis
    using t[where out = working_stdout and col = "''rewards''"
              and g = "\<lambda>url. Raises ClientError" and ep = "''u''"
              and ex = "extract_rewards whole_floats", OF w]
          t[where out = working_stdout and col = "''rewards''"
              and g = "\<lambda>url. http_error 500" and ep = "''u''"
              and ex = "extract_rewards whole_floats", OF w]
          t[where out = working_stdout and col = "''account_balance''"
              and g = "\<lambda>url. ok (PList [])" and ep = "''u''"
              and ex = "extract_account_balance :: int pyval \<Rightarrow> error + int pyval", OF w]
          t[where out = "failing_at (AtStatus ''account_balance'')"
              and col = "''account_balance''"
              and g = "\<lambda>url. ok (PDict [(''balance'', PDict [(''amount'', PStr ''100'')])])"
              and ep = "''u''"
              and ex = "extract_account_balance :: int pyval \<Rightarrow> error + int pyval", OF f]
          t[where out = working_stdout and col = "''account_balance''"
              and g = "\<lambda>url. ok (PDict [(''balance'', PDict [(''amount'', PStr ''100'')])])"
              and ep = "''u''"
              and ex = "extract_account_balance :: int pyval \<Rightarrow> error + int pyval", OF w]
    by (simp add: http_error_def ok_def extract_account_balance_def ebind_def
                  working_stdout_def failing_at_def)
qed

section \<open>The snapshot is complete\<close>

lemma account_prints_ok:
  "stdout w AtAccount = None \<Longrightarrow> stdout w AtAddress = None \<Longrightarrow> stdout w AtValoper = None \<Longrightarrow>
   account_prints w = Inr ()"
  by (simp add: account_prints_def ebind_def)

lemma snapshot_built:
  assumes "account_prints w = Inr ()" and "session_error w = None"
    and "\<And>col. stdout w (AtErrorProcessing col) = None"
  shows "\<exists>v1 v2 v3 v4 v5 v6. fetch_data_for_account fo w a =
    Inr [(''timestamp'', PStr (now w)), (''account_balance'', v1), (''rewards'', v2),
         (''outstanding_rewards'', v3), (''available-tips'', v4), (''delegator_shares'', v5),
         (''delegations'', v6)]"
proof -
  have eq: "\<And>ep col ex. fetch_endpoint (stdout w) (session_get w) ep col ex =
     Inr (col, case fetch_endpoint_try (stdout w) (session_get w) ep col ex of
                 Inl e \<Rightarrow> PStr '''' | Inr r \<Rightarrow> snd r)"
    using assms(3) by (rule fetch_endpoint_eq)
  show ?thesis
    using assms(1,2)
    by (simp add: fetch_data_for_account_def endpoints_def gather_def eq ebind_def)
qed

lemma mapM_err_map: "mapM_err (\<lambda>t. t) (map f xs) = mapM_err f xs"
  by (induction xs) (auto split: sum.splits)

lemma mapM_err_InrD:
  assumes "mapM_err f xs = Inr ys" and "\<And>x y. f x = Inr y \<Longrightarrow> y = g x"
  shows "ys = map g xs"
  using assms(1)
proof (induction xs arbitrary: ys)
  case Nil
  then show ?case by simp
next
  case (Cons x xs)
  from Cons.prems obtain y ys' where
    y: "f x = Inr y" and ys': "mapM_err f xs = Inr ys'" and ys: "ys = y # ys'"
    by (auto split: sum.splits)
  from Cons.IH[OF ys'] assms(2)[OF y] ys show ?case by simp
qed

lemma snapshot_shape:
  assumes "fetch_data_for_account fo w a = Inr snap"
  shows "map fst snap = [''timestamp'', ''account_balance'', ''rewards'', ''outstanding_rewards'',
                         ''available-tips'', ''delegator_shares'', ''delegations''] \<and>
     map_of snap ''timestamp'' = Some (PStr (now w)) \<and>
     (\<forall>(endpoint, column, extract_func) \<in> set (endpoints fo a).
        map_of snap column =
          Some (case fetch_endpoint_try (stdout w) (session_get w) endpoint column
                       extract_func of
                  Inl e \<Rightarrow> PStr '''' | Inr r \<Rightarrow> snd r))"
proof -
  let ?F = "\<lambda>(endpoint, column, extract_func).
              fetch_endpoint (stdout w) (session_get w) endpoint column extract_func"
  let ?G = "\<lambda>(endpoint, column, extract_func).
              (column, case fetch_endpoint_try (stdout w) (session_get w) endpoint column
                              extract_func of
                         Inl e \<Rightarrow> PStr '''' | Inr r \<Rightarrow> snd r)"
  from assms obtain responses where
    r: "mapM_err ?F (endpoints fo a) = Inr responses" and
    snap: "snap = foldl (\<lambda>res (column, v). dict_set res column v)
                    [(''timestamp'', PStr (now w))] responses"
    by (auto simp: fetch_data_for_account_def gather_def mapM_err_map ebind_def
             split: sum.splits option.splits)
  have "\<And>x y. ?F x = Inr y \<Longrightarrow> y = ?G x"
    by (auto dest: fetch_endpoint_InrD)
  with r have "responses = map ?G (endpoints fo a)"
    by (rule mapM_err_InrD)
  then have "snap = foldl (\<lambda>res (column, v). dict_set res column v)
                      [(''timestamp'', PStr (now w))] (map ?G (endpoints fo a))"
    using snap by simp
  then show ?thesis
    by (simp add: endpoints_def)
qed

text \<open>
  C2. For every account and every behaviour of the six GETs, \<open>fetch_data_for_account\<close>
  returns a snapshot when the session opens and the prints outside the \<^verbatim>\<open>try\<close> blocks
  complete, and every snapshot it returns has exactly the keys \<open>timestamp\<close> and the six
  columns, each once and in this order; the timestamp is the formatted time, and each
  column holds the empty string where its fetch failed and the fetched value otherwise.
\<close>

theorem snapshot_has_exactly_the_columns:
  "(stdout w AtAccount = None \<and> stdout w AtAddress = None \<and> stdout w AtValoper = None \<and>
    session_error w = None \<and> (\<forall>col. stdout w (AtErrorProcessing col) = None)
      \<longrightarrow> (\<exists>snap. fetch_data_for_account fo w a = Inr snap)) \<and>
   (\<forall>snap. fetch_data_for_account fo w a = Inr snap \<longrightarrow>
     map fst snap = [''timestamp'', ''account_balance'', ''rewards'', ''outstanding_rewards'',
                     ''available-tips'', ''delegator_shares'', ''delegations''] \<and>
     map_of snap ''timestamp'' = Some (PStr (now w)) \<and>
     (\<forall>(endpoint, column, extract_func) \<in> set (endpoints fo a).
        map_of snap column =
          Some (case fetch_endpoint_try (stdout w) (session_get w) endpoint column
                       extract_func of
                  Inl e \<Rightarrow> PStr '''' | Inr r \<Rightarrow> snd r)))"
proof (intro conjI impI allI)
  assume h: "stdout w AtAccount = None \<and> stdout w AtAddress = None \<and>
             stdout w AtValoper = None \<and> session_error w = None \<and>
             (\<forall>col. stdout w (AtErrorProcessing col) = None)"
  then have p: "account_prints w = Inr ()" by (simp add: account_prints_ok)
  have s: "session_error w = None" using h by simp
  have e: "\<And>col. stdout w (AtErrorProcessing col) = None" using h by simp
  have "\<exists>v1 v2 v3 v4 v5 v6. fetch_data_for_account fo w a =
    Inr [(''timestamp'', PStr (now w)), (''account_balance'', v1), (''rewards'', v2),
         (''outstanding_rewards'', v3), (''available-tips'', v4), (''delegator_shares'', v5),
         (''delegations'', v6)]"
    using p s e by (rule snapshot_built)
  then show "\<exists>snap. fetch_data_for_account fo w a = Inr snap" by (elim exE) (rule exI)
next
  fix snap assume "fetch_data_for_account fo w a = Inr snap"
  from snapshot_shape[OF this]
  show "map fst snap = [''timestamp'', ''account_balance'', ''rewards'', ''outstanding_rewards'',
                     ''available-tips'', ''delegator_shares'', ''delegations'']"
    and "map_of snap ''timestamp'' = Some (PStr (now w))"
    and "\<forall>(endpoint, column, extract_func) \<in> set (endpoints fo a).
        map_of snap column =
          Some (case fetch_endpoint_try (stdout w) (session_get w) endpoint column
                       extract_func of
                  Inl e \<Rightarrow> PStr '''' | Inr r \<Rightarrow> snd r)"
    by blast+
qed

theorem snapshot_has_exactly_the_columns_witness:
  "session_error empty_object_world = None \<and>
   (\<exists>snap. fetch_data_for_account whole_floats empty_object_world example_account = Inr snap \<and>
      map fst snap = [''timestamp'', ''account_balance'', ''rewards'', ''outstanding_rewards'',
                      ''available-tips'', ''delegator_shares'', ''delegations''] \<and>
      map_of snap ''timestamp'' = Some (PStr ''2024-05-01 12:10:00'') \<and>
      map_of snap ''account_balance'' = Some (PStr '''') \<and>
      map_of snap ''delegations'' = Some (PStr ''''))"
proof -
  note inst = snapshot_has_exactly_the_columns[of empty_object_world whole_floats
               example_account]
  have h: "session_error empty_object_world = None"
    by (simp add: empty_object_world_def)
  have p: "stdout empty_object_world AtAccount = None \<and>
           stdout empty_object_world AtAddress = None \<and>
           stdout empty_object_world AtValoper = None \<and>
           session_error empty_object_world = None \<and>
           (\<forall>col. stdout empty_object_world (AtErrorProcessing col) = None)"
    by (simp add: empty_object_world_def working_stdout_def)
  from inst[THEN conjunct1] p obtain snap where
    s: "fetch_data_for_account whole_floats empty_object_world example_account = Inr snap"
    by blast
  from inst[THEN conjunct2] s have all:
    "map fst snap = [''timestamp'', ''account_balance'', ''rewards'', ''outstanding_rewards'',
                     ''available-tips'', ''delegator_shares'', ''delegations''] \<and>
     map_of snap ''timestamp'' = Some (PStr (now empty_object_world)) \<and>
     (\<forall>(endpoint, column, extract_func) \<in> set (endpoints whole_floats example_account).
        map_of snap column =
          Some (case fetch_endpoint_try (stdout empty_object_world)
                       (session_get empty_object_world) endpoint column extract_func of
                  Inl e \<Rightarrow> PStr '''' | Inr r \<Rightarrow> snd r))"
    by blast
  note cols = all[THEN conjunct2, THEN conjunct2]
  have b: "map_of snap ''account_balance'' = Some (PStr '''')"
    using cols
    by (simp add: endpoints_def empty_object_world_def ok_def fetch_endpoint_try_def ebind_def
                  extract_account_balance_def working_stdout_def)
  have d: "map_of snap ''delegations'' = Some (PStr '''')"
    using cols
    by (simp add: endpoints_def empty_object_world_def ok_def fetch_endpoint_try_def ebind_def
                  extract_delegations_def working_stdout_def)
  have t: "now empty_object_world = ''2024-05-01 12:10:00''"
    by (simp add: empty_object_world_def)
  show ?thesis using h s all b d t by simp
qed

section \<open>A 200 response without the expected path\<close>

lemma fetch_endpoint_200:
  assumes "g ep = Responds r" "status r = 200" "response_json r = Inr data"
    and "out (AtFetching col) = None" "out (AtStatus col) = None"
    and "out (AtResponseData col) = None" "out (AtExtracted col) = None"
    and "out (AtErrorProcessing col) = None"
  shows "fetch_endpoint out g ep col ex =
           Inr (col, case ex data of Inl e \<Rightarrow> PStr '''' | Inr v \<Rightarrow> v)"
  using assms
  by (cases "ex data")
     (simp_all add: fetch_endpoint_def fetch_endpoint_try_def ebind_def py_print_def)

lemma getitem_missing: "key_value x k = None \<Longrightarrow> \<exists>e. getitem x k = Inl e"
  by (cases x) auto

lemma getitem_present: "key_value x k = Some v \<Longrightarrow> getitem x k = Inr v"
  by (cases x) auto

lemma dict_get_present: "key_value x k = Some v \<Longrightarrow> dict_get x k = Inr v"
  by (cases x) auto

lemma dict_get_not_dict: "\<forall>kvs. x \<noteq> PDict kvs \<Longrightarrow> dict_get x k = Inl AttributeError"
  by (cases x) auto

lemma read_path2_missing:
  assumes "follow_path x [k1, k2] = None"
  shows "\<exists>e. ebind (getitem x k1) (\<lambda>y. getitem y k2) = Inl e"
proof (cases "key_value x k1")
  case None
  from getitem_missing[OF this] show ?thesis by (auto simp: ebind_def)
next
  case (Some y)
  with assms have "key_value y k2 = None" by (simp split: option.splits)
  from getitem_missing[OF this] getitem_present[OF Some] show ?thesis
    by (auto simp: ebind_def)
qed

lemma mapM_err_raises:
  "x \<in> set xs \<Longrightarrow> f x = Inl e \<Longrightarrow> \<exists>e'. mapM_err f xs = Inl e'"
  by (induction xs) (auto split: sum.splits)

lemma extract_account_balance_missing:
  "follow_path x [''balance'', ''amount''] = None \<Longrightarrow> \<exists>e. extract_account_balance x = Inl e"
  unfolding extract_account_balance_def by (rule read_path2_missing)

lemma extract_delegator_shares_missing:
  "follow_path x [''validator'', ''delegator_shares''] = None \<Longrightarrow>
   \<exists>e. extract_delegator_shares x = Inl e"
  unfolding extract_delegator_shares_def by (rule read_path2_missing)

lemma extract_outstanding_rewards_missing:
  assumes "follow_path x [''rewards'', ''rewards''] = None"
  shows "\<exists>e. extract_outstanding_rewards x = Inl e"
proof -
  from read_path2_missing[OF assms] obtain e where
    "ebind (getitem x ''rewards'') (\<lambda>y. getitem y ''rewards'') = Inl e" ..
  then show ?thesis
    by (auto simp: extract_outstanding_rewards_def ebind_def split: sum.splits)
qed

lemma follow_path2_present:
  assumes "follow_path x [k1, k2] = Some v"
  shows "ebind (getitem x k1) (\<lambda>y. getitem y k2) = Inr v"
proof -
  from assms obtain y where y: "key_value x k1 = Some y" "key_value y k2 = Some v"
    by (auto split: option.splits)
  then show ?thesis by (simp add: ebind_def getitem_present)
qed

lemma extract_outstanding_rewards_no_first:
  assumes "follow_path x [''rewards'', ''rewards''] = Some v"
    and "\<forall>i rest. v \<noteq> PList (i # rest)"
  shows "\<exists>e. extract_outstanding_rewards x = Inl e"
proof -
  from assms(1) obtain y where
    y: "key_value x ''rewards'' = Some y" "key_value y ''rewards'' = Some v"
    by (auto split: option.splits)
  have "\<exists>e. ebind (getitem0 v) (\<lambda>r0. getitem r0 ''amount'') = Inl e"
    using assms(2) by (cases v) (auto simp: ebind_def split: list.splits)
  then show ?thesis
    using y by (auto simp: extract_outstanding_rewards_def ebind_def getitem_present)
qed

lemma extract_outstanding_rewards_first_lacks:
  assumes "follow_path x [''rewards'', ''rewards''] = Some (PList (i # rest))"
    and "key_value i ''amount'' = None"
  shows "\<exists>e. extract_outstanding_rewards x = Inl e"
proof -
  from assms(1) obtain y where
    y: "key_value x ''rewards'' = Some y" "key_value y ''rewards'' = Some (PList (i # rest))"
    by (auto split: option.splits)
  from getitem_missing[OF assms(2)] obtain e where "getitem i ''amount'' = Inl e" ..
  then show ?thesis
    using y by (auto simp: extract_outstanding_rewards_def ebind_def getitem_present)
qed

lemma extract_rewards_item:
  assumes "key_value x ''total'' = Some (PList items)" "i \<in> set items"
    "key_value i ''amount'' = None"
  shows "\<exists>e. extract_rewards fo x = Inl e"
proof -
  let ?f = "\<lambda>reward. ebind (getitem reward ''amount'') (to_float fo)"
  from getitem_missing[OF assms(3)] obtain e where "getitem i ''amount'' = Inl e" ..
  then have "?f i = Inl e"
    by (simp add: ebind_def)
  with assms(2) have "\<exists>e'. mapM_err ?f items = Inl e'"
    by (rule mapM_err_raises[where f = ?f])
  then obtain e' where "mapM_err ?f items = Inl e'" ..
  then show ?thesis
    by (simp add: extract_rewards_def ebind_def dict_get_present[OF assms(1)])
qed

lemma extract_available_tips_item:
  assumes "key_value x ''tips'' = Some (PList items)" "i \<in> set items"
    "follow_path i [''amount'', ''amount''] = None"
  shows "\<exists>e. extract_available_tips fo x = Inl e"
proof -
  let ?f = "\<lambda>tip. ebind (getitem tip ''amount'') (\<lambda>a.
              ebind (getitem a ''amount'') (to_float fo))"
  from read_path2_missing[OF assms(3)] obtain e where
    e: "ebind (getitem i ''amount'') (\<lambda>y. getitem y ''amount'') = Inl e" ..
  have "?f i = Inl e"
  proof (cases "getitem i ''amount''")
    case (Inl e0)
    with e show ?thesis by (simp add: ebind_def)
  next
    case (Inr a)
    with e show ?thesis by (simp add: ebind_def)
  qed
  with assms(2) have "\<exists>e'. mapM_err ?f items = Inl e'"
    by (rule mapM_err_raises[where f = ?f])
  then obtain e' where "mapM_err ?f items = Inl e'" ..
  then show ?thesis
    by (simp add: extract_available_tips_def ebind_def dict_get_present[OF assms(1)])
qed

lemma extract_delegations_item:
  assumes "key_value x ''delegation_responses'' = Some (PList items)" "i \<in> set items"
    "follow_path i [''balance'', ''amount''] = None"
  shows "\<exists>e. extract_delegations fo x = Inl e"
proof -
  let ?f = "\<lambda>delegation. ebind (getitem delegation ''balance'') (\<lambda>b.
              ebind (getitem b ''amount'') (to_float fo))"
  from read_path2_missing[OF assms(3)] obtain e where
    e: "ebind (getitem i ''balance'') (\<lambda>y. getitem y ''amount'') = Inl e" ..
  have "?f i = Inl e"
  proof (cases "getitem i ''balance''")
    case (Inl e0)
    with e show ?thesis by (simp add: ebind_def)
  next
    case (Inr b)
    with e show ?thesis by (simp add: ebind_def)
  qed
  with assms(2) have "\<exists>e'. mapM_err ?f items = Inl e'"
    by (rule mapM_err_raises[where f = ?f])
  then obtain e' where "mapM_err ?f items = Inl e'" ..
  then show ?thesis
    by (simp add: extract_delegations_def ebind_def getitem_present[OF assms(1)])
qed

lemma extract_delegations_no_key:
  assumes "key_value x ''delegation_responses'' = None"
  shows "\<exists>e. extract_delegations fo x = Inl e"
  using getitem_missing[OF assms] by (auto simp: extract_delegations_def ebind_def)

text \<open>
  C6, as stated, fails. With a working standard output, a 200 response whose body is the
  JSON object without the key \<open>total\<close> gives the \<open>rewards\<close> column the int 0, not the empty
  string, because the rule reads the key with \<^verbatim>\<open>x.get('total', [])\<close> and sums no items.
\<close>

theorem missing_total_key_counterexample:
  "fetch_endpoint (stdout empty_object_world) (session_get empty_object_world)
     ''https://info.layer-node.com/cosmos/distribution/v1beta1/delegators/addr1/rewards''
     ''rewards'' (extract_rewards whole_floats) = Inr (''rewards'', PInt 0) \<and>
   fetch_endpoint (stdout empty_object_world) (session_get empty_object_world)
     ''https://info.layer-node.com/cosmos/distribution/v1beta1/delegators/addr1/rewards''
     ''rewards'' (extract_rewards whole_floats) \<noteq> Inr (''rewards'', PStr '''')"
  by (simp add: empty_object_world_def ok_def fetch_endpoint_def fetch_endpoint_try_def
                extract_rewards_def ebind_def py_sum_def working_stdout_def py_print_def)

text \<open>
  C6, amended. Take a 200 response with a JSON body, the prints of the call completing.
  The fetch raises nothing. A body in which the path of keys of the rule cannot be followed
  (the body or a value on the way is no object, or a key is absent) gives the empty string
  for \<open>account_balance\<close> (path \<open>balance.amount\<close>), \<open>delegator_shares\<close>
  (\<open>validator.delegator_shares\<close>), \<open>outstanding_rewards\<close> (\<open>rewards.rewards\<close>, then the first
  element and its \<open>amount\<close>; so also when \<open>rewards.rewards\<close> is an empty list or no list)
  and \<open>delegations\<close> (\<open>delegation_responses\<close>, then \<open>balance.amount\<close> in every item). For
  \<open>rewards\<close> and \<open>available-tips\<close> a body that is no object gives the empty string, and an
  object without the key \<open>total\<close> or \<open>tips\<close> gives 0. An empty list gives 0 for \<open>rewards\<close>,
  \<open>available-tips\<close> and \<open>delegations\<close>. A list with an item in which the path of the item
  (\<open>amount\<close>, \<open>amount.amount\<close>, \<open>balance.amount\<close>) cannot be followed gives the empty string.
\<close>

theorem missing_path_on_200:
  assumes "g ep = Responds r" "status r = 200" "response_json r = Inr data"
    and "out (AtFetching col) = None" "out (AtStatus col) = None"
    and "out (AtResponseData col) = None" "out (AtExtracted col) = None"
    and "out (AtErrorProcessing col) = None"
  shows
    "(\<forall>ex. \<exists>v. fetch_endpoint out g ep col ex = Inr (col, v)) \<and>
     (follow_path data [''balance'', ''amount''] = None \<longrightarrow>
        fetch_endpoint out g ep col extract_account_balance = Inr (col, PStr '''')) \<and>
     (follow_path data [''validator'', ''delegator_shares''] = None \<longrightarrow>
        fetch_endpoint out g ep col extract_delegator_shares = Inr (col, PStr '''')) \<and>
     (follow_path data [''rewards'', ''rewards''] = None \<longrightarrow>
        fetch_endpoint out g ep col extract_outstanding_rewards = Inr (col, PStr '''')) \<and>
     (\<forall>v. follow_path data [''rewards'', ''rewards''] = Some v \<and>
          (\<forall>i rest. v \<noteq> PList (i # rest)) \<longrightarrow>
        fetch_endpoint out g ep col extract_outstanding_rewards = Inr (col, PStr '''')) \<and>
     (\<forall>i rest. follow_path data [''rewards'', ''rewards''] = Some (PList (i # rest)) \<and>
          key_value i ''amount'' = None \<longrightarrow>
        fetch_endpoint out g ep col extract_outstanding_rewards = Inr (col, PStr '''')) \<and>
     (key_value data ''delegation_responses'' = None \<longrightarrow>
        fetch_endpoint out g ep col (extract_delegations fo) = Inr (col, PStr '''')) \<and>
     (key_value data ''delegation_responses'' = Some (PList []) \<longrightarrow>
        fetch_endpoint out g ep col (extract_delegations fo) = Inr (col, PInt 0)) \<and>
     (\<forall>items i. key_value data ''delegation_responses'' = Some (PList items) \<and>
          i \<in> set items \<and> follow_path i [''balance'', ''amount''] = None \<longrightarrow>
        fetch_endpoint out g ep col (extract_delegations fo) = Inr (col, PStr '''')) \<and>
     ((\<forall>kvs. data \<noteq> PDict kvs) \<longrightarrow>
        fetch_endpoint out g ep col (extract_rewards fo) = Inr (col, PStr '''') \<and>
        fetch_endpoint out g ep col (extract_available_tips fo) = Inr (col, PStr '''')) \<and>
     (\<forall>kvs. data = PDict kvs \<and> map_of kvs ''total'' = None \<longrightarrow>
        fetch_endpoint out g ep col (extract_rewards fo) = Inr (col, PInt 0)) \<and>
     (key_value data ''total'' = Some (PList []) \<longrightarrow>
        fetch_endpoint out g ep col (extract_rewards fo) = Inr (col, PInt 0)) \<and>
     (\<forall>items i. key_value data ''total'' = Some (PList items) \<and>
          i \<in> set items \<and> key_value i ''amount'' = None \<longrightarrow>
        fetch_endpoint out g ep col (extract_rewards fo) = Inr (col, PStr '''')) \<and>
     (\<forall>kvs. data = PDict kvs \<and> map_of kvs ''tips'' = None \<longrightarrow>
        fetch_endpoint out g ep col (extract_available_tips fo) = Inr (col, PInt 0)) \<and>
     (key_value data ''tips'' = Some (PList []) \<longrightarrow>
        fetch_endpoint out g ep col (extract_available_tips fo) = Inr (col, PInt 0)) \<and>
     (\<forall>items i. key_value data ''tips'' = Some (PList items) \<and>
          i \<in> set items \<and> follow_path i [''amount'', ''amount''] = None \<longrightarrow>
        fetch_endpoint out g ep col (extract_available_tips fo) = Inr (col, PStr ''''))"
proof -
  have f: "\<And>ex. fetch_endpoint out g ep col ex =
           Inr (col, case ex data of Inl e \<Rightarrow> PStr '''' | Inr v \<Rightarrow> v)"
    using assms by (rule fetch_endpoint_200)
  have raised: "\<And>ex. \<exists>e. ex data = Inl e \<Longrightarrow>
                  fetch_endpoint out g ep col ex = Inr (col, PStr '''')"
    by (auto simp: f)
  have c1: "\<forall>ex. \<exists>v. fetch_endpoint out g ep col ex = Inr (col, v)"
    by (simp add: f)
  have c2: "follow_path data [''balance'', ''amount''] = None \<longrightarrow>
        fetch_endpoint out g ep col extract_account_balance = Inr (col, PStr '''')"
    by (intro impI raised extract_account_balance_missing)
  have c3: "follow_path data [''validator'', ''delegator_shares''] = None \<longrightarrow>
        fetch_endpoint out g ep col extract_delegator_shares = Inr (col, PStr '''')"
    by (intro impI raised extract_delegator_shares_missing)
  have c4: "follow_path data [''rewards'', ''rewards''] = None \<longrightarrow>
        fetch_endpoint out g ep col extract_outstanding_rewards = Inr (col, PStr '''')"
    by (intro impI raised extract_outstanding_rewards_missing)
  have c5: "\<forall>v. follow_path data [''rewards'', ''rewards''] = Some v \<and>
          (\<forall>i rest. v \<noteq> PList (i # rest)) \<longrightarrow>
        fetch_endpoint out g ep col extract_outstanding_rewards = Inr (col, PStr '''')"
  proof (intro allI impI)
    fix v assume "follow_path data [''rewards'', ''rewards''] = Some v \<and>
          (\<forall>i rest. v \<noteq> PList (i # rest))"
    then have "\<exists>e. extract_outstanding_rewards data = Inl e"
      using extract_outstanding_rewards_no_first by blast
    then show "fetch_endpoint out g ep col extract_outstanding_rewards = Inr (col, PStr '''')"
      by (rule raised)
  qed
  have c6: "\<forall>i rest. follow_path data [''rewards'', ''rewards''] = Some (PList (i # rest)) \<and>
          key_value i ''amount'' = None \<longrightarrow>
        fetch_endpoint out g ep col extract_outstanding_rewards = Inr (col, PStr '''')"
  proof (intro allI impI)
    fix i rest
    assume "follow_path data [''rewards'', ''rewards''] = Some (PList (i # rest)) \<and>
          key_value i ''amount'' = None"
    then have "\<exists>e. extract_outstanding_rewards data = Inl e"
      using extract_outstanding_rewards_first_lacks by blast
    then show "fetch_endpoint out g ep col extract_outstanding_rewards = Inr (col, PStr '''')"
      by (rule raised)
  qed
  have c7: "key_value data ''delegation_responses'' = None \<longrightarrow>
        fetch_endpoint out g ep col (extract_delegations fo) = Inr (col, PStr '''')"
    by (intro impI raised extract_delegations_no_key)
  have c8: "key_value data ''delegation_responses'' = Some (PList []) \<longrightarrow>
        fetch_endpoint out g ep col (extract_delegations fo) = Inr (col, PInt 0)"
    by (simp add: f extract_delegations_def ebind_def py_sum_def getitem_present)
  have c9: "\<forall>items i. key_value data ''delegation_responses'' = Some (PList items) \<and>
          i \<in> set items \<and> follow_path i [''balance'', ''amount''] = None \<longrightarrow>
        fetch_endpoint out g ep col (extract_delegations fo) = Inr (col, PStr '''')"
  proof (intro allI impI)
    fix items i
    assume "key_value data ''delegation_responses'' = Some (PList items) \<and>
          i \<in> set items \<and> follow_path i [''balance'', ''amount''] = None"
    then have "\<exists>e. extract_delegations fo data = Inl e"
      using extract_delegations_item by blast
    then show "fetch_endpoint out g ep col (extract_delegations fo) = Inr (col, PStr '''')"
      by (rule raised)
  qed
  have c10: "(\<forall>kvs. data \<noteq> PDict kvs) \<longrightarrow>
        fetch_endpoint out g ep col (extract_rewards fo) = Inr (col, PStr '''') \<and>
        fetch_endpoint out g ep col (extract_available_tips fo) = Inr (col, PStr '''')"
    by (simp add: f extract_rewards_def extract_available_tips_def ebind_def
                  dict_get_not_dict)
  have c11: "\<forall>kvs. data = PDict kvs \<and> map_of kvs ''total'' = None \<longrightarrow>
        fetch_endpoint out g ep col (extract_rewards fo) = Inr (col, PInt 0)"
    by (simp add: f extract_rewards_def ebind_def py_sum_def)
  have c12: "key_value data ''total'' = Some (PList []) \<longrightarrow>
        fetch_endpoint out g ep col (extract_rewards fo) = Inr (col, PInt 0)"
    by (simp add: f extract_rewards_def ebind_def py_sum_def dict_get_present)
  have c13: "\<forall>items i. key_value data ''total'' = Some (PList items) \<and>
          i \<in> set items \<and> key_value i ''amount'' = None \<longrightarrow>
        fetch_endpoint out g ep col (extract_rewards fo) = Inr (col, PStr '''')"
  proof (intro allI impI)
    fix items i
    assume "key_value data ''total'' = Some (PList items) \<and>
          i \<in> set items \<and> key_value i ''amount'' = None"
    then have "\<exists>e. extract_rewards fo data = Inl e"
      using extract_rewards_item by blast
    then show "fetch_endpoint out g ep col (extract_rewards fo) = Inr (col, PStr '''')"
      by (rule raised)
  qed
  have c14: "\<forall>kvs. data = PDict kvs \<and> map_of kvs ''tips'' = None \<longrightarrow>
        fetch_endpoint out g ep col (extract_available_tips fo) = Inr (col, PInt 0)"
    by (simp add: f extract_available_tips_def ebind_def py_sum_def)
  have c15: "key_value data ''tips'' = Some (PList []) \<longrightarrow>
        fetch_endpoint out g ep col (extract_available_tips fo) = Inr (col, PInt 0)"
    by (simp add: f extract_available_tips_def ebind_def py_sum_def dict_get_present)
  have c16: "\<forall>items i. key_value data ''tips'' = Some (PList items) \<and>
          i \<in> set items \<and> follow_path i [''amount'', ''amount''] = None \<longrightarrow>
        fetch_endpoint out g ep col (extract_available_tips fo) = Inr (col, PStr '''')"
  proof (intro allI impI)
    fix items i
    assume "key_value data ''tips'' = Some (PList items) \<and>
          i \<in> set items \<and> follow_path i [''amount'', ''amount''] = None"
    then have "\<exists>e. extract_available_tips fo data = Inl e"
      using extract_available_tips_item by blast
    then show "fetch_endpoint out g ep col (extract_available_tips fo) = Inr (col, PStr '''')"
      by (rule raised)
  qed
  from c1 c2 c3 c4 c5 c6 c7 c8 c9 c10 c11 c12 c13 c14 c15 c16 show ?thesis
    by (intro conjI)
qed

theorem missing_path_on_200_witness:
  "session_get empty_object_world ''u'' =
     Responds \<lparr>status = 200, response_text = Inr ''(body)'', response_json = Inr (PDict [])\<rparr> \<and>
   fetch_endpoint working_stdout (session_get empty_object_world) ''u'' ''c''
     (extract_account_balance :: int pyval \<Rightarrow> error + int pyval) = Inr (''c'', PStr '''') \<and>
   fetch_endpoint working_stdout (session_get empty_object_world) ''u'' ''c''
     (extract_delegations whole_floats) = Inr (''c'', PStr '''') \<and>
   fetch_endpoint working_stdout (session_get empty_object_world) ''u'' ''c''
     (extract_rewards whole_floats) = Inr (''c'', PInt 0) \<and>
   fetch_endpoint working_stdout (session_get empty_object_world) ''u'' ''c''
     (extract_available_tips whole_floats) = Inr (''c'', PInt 0) \<and>
   fetch_endpoint working_stdout
     (\<lambda>url. ok (PDict [(''delegation_responses'',
                           PList [PDict [(''balance'', PDict [(''denom'', PStr ''loya'')])]])]))
     ''u'' ''c'' (extract_delegations whole_floats) = Inr (''c'', PStr '''')"
proof -
  let ?r = "\<lparr>status = 200, response_text = Inr ''(body)'',
             response_json = Inr (PDict [])\<rparr> :: int response"
  let ?item = "PDict [(''balance'', PDict [(''denom'', PStr ''loya'')])] :: int pyval"
  let ?d2 = "PDict [(''delegation_responses'', PList [?item])] :: int pyval"
  let ?r2 = "\<lparr>status = 200, response_text = Inr ''(body)'',
              response_json = Inr ?d2\<rparr> :: int response"
  have a: "session_get empty_object_world ''u'' = Responds ?r"
    by (simp add: empty_object_world_def ok_def)
  have b: "status ?r = 200" by simp
  have c: "response_json ?r = Inr (PDict [])" by simp
  have a2: "(\<lambda>url. ok ?d2) ''u'' = Responds ?r2" by (simp add: ok_def)
  have b2: "status ?r2 = 200" by simp
  have c2: "response_json ?r2 = Inr ?d2" by simp
  have p: "\<And>site. working_stdout site = None" by (simp add: working_stdout_def)
  note first = missing_path_on_200[where g = "session_get empty_object_world" and ep = "''u''"
      and r = ?r and data = "PDict []" and col = "''c''" and fo = whole_floats
      and out = working_stdout, OF a b c p p p p p]
  note second = missing_path_on_200[where g = "\<lambda>url. ok ?d2" and ep = "''u''"
      and r = ?r2 and data = ?d2 and col = "''c''" and fo = whole_floats
      and out = working_stdout, OF a2 b2 c2 p p p p p]
  have inner: "key_value ?d2 ''delegation_responses'' = Some (PList [?item]) \<and>
               ?item \<in> set [?item] \<and> follow_path ?item [''balance'', ''amount''] = None"
    by simp
  have last: "fetch_endpoint working_stdout (\<lambda>url. ok ?d2) ''u'' ''c''
                (extract_delegations whole_floats) = Inr (''c'', PStr '''')"
    using second inner by blast
  show ?thesis
    using a first last by simp
qed

section \<open>The CSV appender\<close>

lemma save_to_csv_completes:
  "open_error fsys p = None \<Longrightarrow> write_error fsys p = None \<Longrightarrow>
   save_to_csv d p fsys =
     Inr (fsys\<lparr>files := (files fsys)(p \<mapsto>
            (case files fsys p of None \<Rightarrow> [header_row d] | Some old \<Rightarrow> old) @ [data_row d])\<rparr>)"
  by (simp add: save_to_csv_def path_exists_def split: option.splits)



lemma save_all_existing:
  "files fsys p = Some old \<Longrightarrow> open_error fsys p = None \<Longrightarrow> write_error fsys p = None \<Longrightarrow>
   \<exists>fsys'. save_all ds p fsys = Inr fsys' \<and> files fsys' p = Some (old @ map data_row ds)"
proof (induction ds arbitrary: fsys old)
  case Nil
  then show ?case by simp
next
  case (Cons d ds)
  let ?fs1 = "fsys\<lparr>files := (files fsys)(p \<mapsto> old @ [data_row d])\<rparr>"
  have step: "save_to_csv d p fsys = Inr ?fs1"
    using Cons.prems by (simp add: save_to_csv_completes)
  have "files ?fs1 p = Some (old @ [data_row d])" "open_error ?fs1 p = None"
    "write_error ?fs1 p = None"
    using Cons.prems by simp_all
  from Cons.IH[OF this] step show ?case by simp
qed

lemma data_row_values: "distinct (map fst d) \<Longrightarrow> data_row d = map snd d"
proof -
  assume dist: "distinct (map fst d)"
  have "\<And>kv. kv \<in> set d \<Longrightarrow> map_of d (fst kv) = Some (snd kv)"
    using dist by simp
  then show ?thesis
    by (simp add: data_row_def)
qed

lemma snapshot_keys:
  assumes "fetch_data_for_account fo w a = Inr d"
  shows "map fst d = [''timestamp'', ''account_balance'', ''rewards'', ''outstanding_rewards'',
                      ''available-tips'', ''delegator_shares'', ''delegations'']"
  using snapshot_shape[OF assms] by (rule conjunct1)

text \<open>
  C3. On a path that does not exist and that can be opened and written, writing one or more
  snapshots, each built by \<open>fetch_data_for_account\<close>, one call of \<open>save_to_csv\<close> after the
  other, succeeds and leaves a file whose first row is the header \<open>timestamp\<close>,
  \<open>account_balance\<close>, \<open>rewards\<close>, \<open>outstanding_rewards\<close>, \<open>available-tips\<close>,
  \<open>delegator_shares\<close>, \<open>delegations\<close>, followed by one data row for each snapshot, in the
  order written; each data row has seven cells and, paired cell by cell with the header
  names, is its snapshot.
\<close>

theorem fresh_file_header_then_rows:
  assumes "files fsys p = None" and "open_error fsys p = None" and "write_error fsys p = None"
    and "ds \<noteq> []"
    and "\<forall>d \<in> set ds. \<exists>w a. fetch_data_for_account fo w a = Inr d"
  shows "\<exists>fsys' rows. save_all ds p fsys = Inr fsys' \<and>
     files fsys' p =
       Some (map PStr [''timestamp'', ''account_balance'', ''rewards'', ''outstanding_rewards'',
                       ''available-tips'', ''delegator_shares'', ''delegations''] # rows) \<and>
     length rows = length ds \<and>
     (\<forall>row \<in> set rows. length row = 7) \<and>
     map (zip [''timestamp'', ''account_balance'', ''rewards'', ''outstanding_rewards'',
               ''available-tips'', ''delegator_shares'', ''delegations'']) rows = ds"
proof -
  let ?cols = "[''timestamp'', ''account_balance'', ''rewards'', ''outstanding_rewards'',
                ''available-tips'', ''delegator_shares'', ''delegations'']"
  have keys: "\<And>d. d \<in> set ds \<Longrightarrow> map fst d = ?cols"
    using assms(5) snapshot_keys by blast
  have rows: "\<And>d. d \<in> set ds \<Longrightarrow> data_row d = map snd d"
  proof -
    fix d assume "d \<in> set ds"
    then have "distinct (map fst d)" using keys[of d] by simp
    then show "data_row d = map snd d" by (rule data_row_values)
  qed
  obtain d0 rest where ds: "ds = d0 # rest"
    using assms(4) by (cases ds) auto
  let ?fs1 = "fsys\<lparr>files := (files fsys)(p \<mapsto> [header_row d0, data_row d0])\<rparr>"
  have first: "save_to_csv d0 p fsys = Inr ?fs1"
    using assms(1,2,3) by (simp add: save_to_csv_completes)
  have "files ?fs1 p = Some [header_row d0, data_row d0]" "open_error ?fs1 p = None"
    "write_error ?fs1 p = None"
    using assms(2,3) by simp_all
  from save_all_existing[OF this, of rest] obtain fsys' where
    fsys': "save_all rest p ?fs1 = Inr fsys'"
         "files fsys' p = Some ([header_row d0, data_row d0] @ map data_row rest)"
    by blast
  have hdr: "header_row d0 = map PStr ?cols"
    using keys[of d0] ds by (simp add: header_row_def)
  have all: "save_all ds p fsys = Inr fsys'"
    using first fsys'(1) ds by simp
  have content: "files fsys' p = Some (map PStr ?cols # map (map snd) ds)"
    using fsys'(2) hdr rows ds by simp
  have len: "\<forall>row \<in> set (map (map snd) ds). length row = 7"
  proof
    fix row assume "row \<in> set (map (map snd) ds)"
    then obtain d where d: "d \<in> set ds" "row = map snd d" by auto
    have "length (map fst d) = 7" using keys[OF d(1)] by simp
    then show "length row = 7" using d(2) by simp
  qed
  have zipped: "map (zip ?cols) (map (map snd) ds) = ds"
  proof -
    have "\<And>d. d \<in> set ds \<Longrightarrow> zip ?cols (map snd d) = d"
    proof -
      fix d assume "d \<in> set ds"
      then have "zip ?cols (map snd d) = zip (map fst d) (map snd d)"
        using keys by simp
      then show "zip ?cols (map snd d) = d" by (simp only: zip_map_fst_snd)
    qed
    then show ?thesis by (simp add: map_idI)
  qed
  from all content len zipped show ?thesis
    by (intro exI[of _ fsys'] exI[of _ "map (map snd) ds"]) simp
qed

lemma good_snapshot_built:
  "fetch_data_for_account whole_floats good_world example_account = Inr good_snapshot"
  by code_simp

lemma rewards_500_snapshot_built:
  "fetch_data_for_account whole_floats rewards_500_world example_account
     = Inr rewards_500_snapshot"
  by code_simp

theorem fresh_file_header_then_rows_witness:
  "files fresh_fs ''A.csv'' = None \<and> open_error fresh_fs ''A.csv'' = None \<and>
   write_error fresh_fs ''A.csv'' = None \<and>
   fetch_data_for_account whole_floats good_world example_account = Inr good_snapshot \<and>
   fetch_data_for_account whole_floats rewards_500_world example_account
     = Inr rewards_500_snapshot \<and>
   (\<exists>fsys' rows. save_all [good_snapshot, rewards_500_snapshot] ''A.csv'' fresh_fs = Inr fsys' \<and>
     files fsys' ''A.csv'' =
       Some (map PStr [''timestamp'', ''account_balance'', ''rewards'', ''outstanding_rewards'',
                       ''available-tips'', ''delegator_shares'', ''delegations''] # rows) \<and>
     length rows = length [good_snapshot, rewards_500_snapshot] \<and>
     (\<forall>row \<in> set rows. length row = 7) \<and>
     map (zip [''timestamp'', ''account_balance'', ''rewards'', ''outstanding_rewards'',
               ''available-tips'', ''delegator_shares'', ''delegations'']) rows
       = [good_snapshot, rewards_500_snapshot])"
proof -
  have h1: "files fresh_fs ''A.csv'' = None" by (simp add: fresh_fs_def)
  have h2: "open_error fresh_fs ''A.csv'' = None" by (simp add: fresh_fs_def)
  have h3: "write_error fresh_fs ''A.csv'' = None" by (simp add: fresh_fs_def)
  have h4: "[good_snapshot, rewards_500_snapshot] \<noteq> []" by simp
  have h5: "\<forall>d \<in> set [good_snapshot, rewards_500_snapshot].
              \<exists>w a. fetch_data_for_account whole_floats w a = Inr d"
    using good_snapshot_built rewards_500_snapshot_built by auto
  show ?thesis
    by (intro conjI h1 h2 h3 good_snapshot_built rewards_500_snapshot_built
          fresh_file_header_then_rows[OF h1 h2 h3 h4 h5])
qed




text \<open>
  C10. Whether \<open>save_to_csv\<close> writes a header depends only on whether the path exists
  when it is called: a call that opens and writes the file writes the header and the data
  row when the path did not exist, and the data row alone after the rows already there
  when it did. An existing file of zero bytes therefore ends up holding the data row and
  no header.
\<close>

theorem header_decided_by_existence_only:
  assumes "open_error fsys p = None" and "write_error fsys p = None"
  shows "\<exists>fsys'. save_to_csv d p fsys = Inr fsys' \<and>
     files fsys' p = Some ((case files fsys p of None \<Rightarrow> [header_row d] | Some old \<Rightarrow> old)
                          @ [data_row d]) \<and>
     (files fsys p = Some [] \<longrightarrow> files fsys' p = Some [data_row d])"
  using assms by (auto simp: save_to_csv_completes)

theorem header_decided_by_existence_only_witness:
  "open_error empty_file_fs ''A.csv'' = None \<and> write_error empty_file_fs ''A.csv'' = None \<and>
   files empty_file_fs ''A.csv'' = Some [] \<and>
   (\<exists>fsys'. save_to_csv good_snapshot ''A.csv'' empty_file_fs = Inr fsys' \<and>
      files fsys' ''A.csv'' =
        Some [[PStr ''2024-05-01 12:00:00'', PStr ''100'', PFloat 5, PStr ''2'', PFloat 1,
               PStr ''1000'', PFloat 50]])"
proof -
  have h: "open_error empty_file_fs ''A.csv'' = None" by (simp add: empty_file_fs_def)
  have h2: "write_error empty_file_fs ''A.csv'' = None" by (simp add: empty_file_fs_def)
  have e: "files empty_file_fs ''A.csv'' = Some []" by (simp add: empty_file_fs_def)
  have r: "data_row good_snapshot =
             [PStr ''2024-05-01 12:00:00'', PStr ''100'', PFloat 5, PStr ''2'', PFloat 1,
              PStr ''1000'', PFloat 50]"
    by (simp add: data_row_def good_snapshot_def)
  show ?thesis
    using h h2 e r header_decided_by_existence_only[OF h h2, of good_snapshot] by auto
qed

section \<open>The startup check\<close>

lemma check_accounts_passes:
  "(check_accounts accounts = Inr ()) = (\<forall>a \<in> set accounts. all_values a)"
  by (induction accounts) auto

lemma check_accounts_raises:
  "\<not> (\<forall>a \<in> set accounts. all_values a) \<Longrightarrow> \<exists>msg. check_accounts accounts = Inl (ValueError msg)"
  by (induction accounts) auto

lemma all_values_iff:
  "all_values a =
     (\<not> (name a = None \<or> name a = Some '''' \<or> address a = None \<or> address a = Some '''' \<or>
         valoper_address a = None \<or> valoper_address a = Some ''''))"
  by (auto simp: all_values_def truthy_def split: option.splits)

text \<open>
  C8. If a field of one of the accounts is absent or empty, the program ends with the
  \<^verbatim>\<open>ValueError\<close> of the module-level check and no monitor is started; if every field of
  every account is a non-empty string, the check passes and one monitor is started for each
  account.
\<close>

theorem startup_requires_every_field:
  "((\<exists>a \<in> set (ACCOUNTS getenv).
        name a = None \<or> name a = Some '''' \<or> address a = None \<or> address a = Some '''' \<or>
        valoper_address a = None \<or> valoper_address a = Some '''')
      \<longrightarrow> (\<exists>msg. program_start getenv = Fatal (ValueError msg))) \<and>
   ((\<forall>a \<in> set (ACCOUNTS getenv).
        \<not> (name a = None \<or> name a = Some '''' \<or> address a = None \<or> address a = Some '''' \<or>
           valoper_address a = None \<or> valoper_address a = Some ''''))
      \<longrightarrow> program_start getenv = Monitoring (ACCOUNTS getenv))"
proof (intro conjI impI)
  assume "\<exists>a \<in> set (ACCOUNTS getenv).
        name a = None \<or> name a = Some '''' \<or> address a = None \<or> address a = Some '''' \<or>
        valoper_address a = None \<or> valoper_address a = Some ''''"
  then have "\<not> (\<forall>a \<in> set (ACCOUNTS getenv). all_values a)"
    unfolding all_values_iff by blast
  from check_accounts_raises[OF this] obtain msg where
    "check_accounts (ACCOUNTS getenv) = Inl (ValueError msg)" ..
  then show "\<exists>msg. program_start getenv = Fatal (ValueError msg)"
    by (simp add: program_start_def)
next
  assume "\<forall>a \<in> set (ACCOUNTS getenv).
        \<not> (name a = None \<or> name a = Some '''' \<or> address a = None \<or> address a = Some '''' \<or>
           valoper_address a = None \<or> valoper_address a = Some '''')"
  then have "\<forall>a \<in> set (ACCOUNTS getenv). all_values a"
    unfolding all_values_iff .
  then have "check_accounts (ACCOUNTS getenv) = Inr ()"
    by (simp only: check_accounts_passes)
  then show "program_start getenv = Monitoring (ACCOUNTS getenv)"
    by (simp add: program_start_def main_loop_tasks_def)
qed

theorem startup_requires_every_field_witness:
  "program_start full_env = Monitoring (ACCOUNTS full_env) \<and>
   (\<exists>msg. program_start partial_env = Fatal (ValueError msg)) \<and>
   (\<exists>msg. program_start empty_value_env = Fatal (ValueError msg))"
  using startup_requires_every_field[of full_env]
        startup_requires_every_field[of partial_env]
        startup_requires_every_field[of empty_value_env]
  by (simp add: ACCOUNTS_def full_env_def partial_env_def empty_value_env_def)

section \<open>The account monitor loop\<close>

lemma snapshot_timestamp:
  assumes "fetch_data_for_account fo w a = Inr d"
  shows "map_of d ''timestamp'' = Some (PStr (now w))"
  using snapshot_shape[OF assms] by simp

lemma emit_simps [simp]:
  "fs (emit es s) = fs s" "trace (emit es s) = trace s @ es"
  "emit es (s\<lparr>fs := f\<rparr>) = (emit es s)\<lparr>fs := f\<rparr>"
  "emit es2 (emit es1 s) = emit (es1 @ es2) s"
  by (simp_all add: emit_def)

lemma monitor_try_fetch_raises:
  assumes "fetch_data_for_account fo w a = Inl e"
  shows "monitor_try fo w a s = Inl (e, emit (fetch_events fo w a) s)"
  using assms by (simp add: monitor_try_def)

lemma monitor_try_save_raises:
  assumes "fetch_data_for_account fo w a = Inr d"
    and "save_to_csv d (py_format (name a) @ ''.csv'') (fs s) = Inl (e, f')"
  shows "monitor_try fo w a s = Inl (e, (emit (fetch_events fo w a) s)\<lparr>fs := f'\<rparr>)"
  using assms by (simp add: monitor_try_def)

lemma monitor_try_print_raises:
  assumes "fetch_data_for_account fo w a = Inr d"
    and "save_to_csv d (py_format (name a) @ ''.csv'') (fs s) = Inr f'"
    and "stdout w AtDataSaved = Some e"
  shows "monitor_try fo w a s =
           Inl (e, (emit (fetch_events fo w a @ [Wrote (py_format (name a) @ ''.csv'')]) s)
                   \<lparr>fs := f'\<rparr>)"
  using assms snapshot_timestamp[OF assms(1)]
  by (simp add: monitor_try_def Let_def py_print_def)

lemma monitor_try_saved:
  assumes "fetch_data_for_account fo w a = Inr d"
    and "save_to_csv d (py_format (name a) @ ''.csv'') (fs s) = Inr f'"
    and "stdout w AtDataSaved = None"
  shows "monitor_try fo w a s =
           Inr ((emit (fetch_events fo w a @
                       [Wrote (py_format (name a) @ ''.csv''),
                        PrintSaved (py_format (name a) @ ''.csv'') (now w), Sleep 300]) s)
                \<lparr>fs := f'\<rparr>)"
  using assms snapshot_timestamp[OF assms(1)]
  by (simp add: monitor_try_def Let_def py_print_def)

lemma monitor_body_handled:
  assumes "monitor_try fo w a s = Inl (e, s1)" and "stdout w AtLoopError = None"
  shows "monitor_body fo w a s = Inr (emit [PrintError (py_format (name a)) e, Sleep 60] s1)"
  using assms by (simp add: monitor_body_def py_print_def)

lemma monitor_body_handler_raises:
  assumes "monitor_try fo w a s = Inl (e, s1)" and "stdout w AtLoopError = Some e'"
  shows "monitor_body fo w a s = Inl (e', s1)"
  using assms by (simp add: monitor_body_def py_print_def)

lemma monitor_body_passed:
  assumes "monitor_try fo w a s = Inr s2"
  shows "monitor_body fo w a s = Inr s2"
  using assms by (simp add: monitor_body_def)


lemma monitor_body_returns:
  assumes "stdout w AtLoopError = None"
  shows "\<exists>s'. monitor_body fo w a s = Inr s'"
proof (cases "monitor_try fo w a s")
  case (Inl es)
  obtain e s1 where "es = (e, s1)" by (cases es)
  with Inl monitor_body_handled[OF _ assms] show ?thesis by blast
next
  case (Inr s2)
  then show ?thesis by (simp add: monitor_body_passed)
qed

lemma fetch_events_no_poll: "\<not> list_ex is_poll (fetch_events fo w a)"
  by (simp add: fetch_events_def endpoints_def split: option.splits sum.splits)

lemma fetch_events_no_sleep: "\<not> list_ex is_sleep (fetch_events fo w a)"
  by (simp add: fetch_events_def endpoints_def split: option.splits sum.splits)

text \<open>What the \<^verbatim>\<open>try\<close> block adds to the trace.\<close>

lemma monitor_try_trace:
  "(\<forall>e s1. monitor_try fo w a s = Inl (e, s1) \<longrightarrow>
      (\<exists>es. trace s1 = trace s @ es \<and> \<not> list_ex is_poll es \<and> \<not> list_ex is_sleep es)) \<and>
   (\<forall>s2. monitor_try fo w a s = Inr s2 \<longrightarrow>
      (\<exists>es. trace s2 = trace s @ es @ [Sleep 300] \<and> es \<noteq> [] \<and>
            \<not> list_ex is_poll es \<and> \<not> list_ex is_sleep es))"
proof (cases "fetch_data_for_account fo w a")
  case (Inl e)
  show ?thesis
    unfolding monitor_try_fetch_raises[OF Inl]
    by (simp add: fetch_events_no_poll fetch_events_no_sleep)
next
  case (Inr d)
  show ?thesis
  proof (cases "save_to_csv d (py_format (name a) @ ''.csv'') (fs s)")
    case (Inl ef)
    obtain e f' where "ef = (e, f')" by (cases ef)
    with Inl have r: "save_to_csv d (py_format (name a) @ ''.csv'') (fs s) = Inl (e, f')"
      by simp
    show ?thesis
      unfolding monitor_try_save_raises[OF Inr r]
      by (simp add: fetch_events_no_poll fetch_events_no_sleep)
  next
    case saved: (Inr f')
    show ?thesis
    proof (cases "stdout w AtDataSaved")
      case None
      have "\<exists>es. fetch_events fo w a @
                 [Wrote (py_format (name a) @ ''.csv''),
                  PrintSaved (py_format (name a) @ ''.csv'') (now w), Sleep 300]
                 = es @ [Sleep 300] \<and> es \<noteq> [] \<and> \<not> list_ex is_poll es \<and>
                 \<not> list_ex is_sleep es"
        by (rule exI[of _ "fetch_events fo w a @
                 [Wrote (py_format (name a) @ ''.csv''),
                  PrintSaved (py_format (name a) @ ''.csv'') (now w)]"])
           (simp add: fetch_events_no_poll fetch_events_no_sleep)
      then show ?thesis
        unfolding monitor_try_saved[OF Inr saved None] by simp
    next
      case (Some e)
      show ?thesis
        unfolding monitor_try_print_raises[OF Inr saved Some]
        by (simp add: fetch_events_no_poll fetch_events_no_sleep)
    qed
  qed
qed

text \<open>What one pass adds to the trace, when it completes and when it raises.\<close>

lemma monitor_body_trace:
  "(\<forall>s'. monitor_body fo w a s = Inr s' \<longrightarrow>
      (\<exists>es d. trace s' = trace s @ es @ [Sleep d] \<and> es \<noteq> [] \<and>
              \<not> list_ex is_poll es \<and> \<not> list_ex is_sleep es \<and> (d = 300 \<or> d = 60))) \<and>
   (\<forall>e s'. monitor_body fo w a s = Inl (e, s') \<longrightarrow>
      (\<exists>es. trace s' = trace s @ es \<and> \<not> list_ex is_poll es \<and> \<not> list_ex is_sleep es))"
proof (cases "monitor_try fo w a s")
  case (Inr s2)
  from monitor_try_trace[of fo w a s, THEN conjunct2] Inr obtain es where
    "trace s2 = trace s @ es @ [Sleep 300] \<and> es \<noteq> [] \<and>
     \<not> list_ex is_poll es \<and> \<not> list_ex is_sleep es"
    by blast
  then show ?thesis
    unfolding monitor_body_passed[OF Inr] by auto
next
  case (Inl es1)
  obtain e s1 where es1: "es1 = (e, s1)" by (cases es1)
  with Inl have t: "monitor_try fo w a s = Inl (e, s1)" by simp
  from monitor_try_trace[of fo w a s, THEN conjunct1] t obtain es where
    es: "trace s1 = trace s @ es" "\<not> list_ex is_poll es" "\<not> list_ex is_sleep es"
    by blast
  show ?thesis
  proof (cases "stdout w AtLoopError")
    case None
    have "\<exists>es' d. trace s @ es @ [PrintError (py_format (name a)) e, Sleep 60]
                    = trace s @ es' @ [Sleep d] \<and> es' \<noteq> [] \<and>
                  \<not> list_ex is_poll es' \<and> \<not> list_ex is_sleep es' \<and> (d = 300 \<or> d = 60)"
      by (rule exI[of _ "es @ [PrintError (py_format (name a)) e]"], rule exI[of _ 60])
         (simp add: es)
    then show ?thesis
      unfolding monitor_body_handled[OF t None] by (simp add: es)
  next
    case (Some e')
    show ?thesis
      unfolding monitor_body_handler_raises[OF t Some] using es by auto
  qed
qed





lemma monitor_account_polls:
  "monitor_account n fo is_set env a k s = Some out \<Longrightarrow>
   \<exists>t. trace (final_state out) = trace s @ t \<and>
       length (filter is_poll t) = Suc (length (filter is_sleep t))"
proof (induction n arbitrary: k s)
  case 0
  then show ?case by simp
next
  case (Suc n)
  show ?case
  proof (cases "is_set k")
    case True
    with Suc.prems have "out = Stopped (emit [Poll True] s)" by simp
    then show ?thesis by simp
  next
    case False
    note b = monitor_body_trace[of fo "env k" a "emit [Poll False] s"]
    show ?thesis
    proof (cases "monitor_body fo (env k) a (emit [Poll False] s)")
      case (Inl es1)
      obtain e1 s1 where es1: "es1 = (e1, s1)" by (cases es1)
      with Inl False Suc.prems have out: "out = Raised e1 s1" by simp
      from b[THEN conjunct2] Inl es1 obtain es where
        es: "trace s1 = trace (emit [Poll False] s) @ es"
            "\<not> list_ex is_poll es" "\<not> list_ex is_sleep es"
        by blast
      have np: "filter is_poll es = []" and ns: "filter is_sleep es = []"
        using es(2,3) by (simp_all add: list_ex_iff filter_empty_conv)
      have "trace (final_state out) = trace s @ (Poll False # es)"
        using out es(1) by simp
      moreover have "length (filter is_poll (Poll False # es))
                       = Suc (length (filter is_sleep (Poll False # es)))"
        using np ns by simp
      ultimately show ?thesis by blast
    next
      case (Inr s1)
      with False Suc.prems have "monitor_account n fo is_set env a (Suc k) s1 = Some out"
        by simp
      from Suc.IH[OF this] obtain t where
        t: "trace (final_state out) = trace s1 @ t"
           "length (filter is_poll t) = Suc (length (filter is_sleep t))"
        by blast
      from b[THEN conjunct1] Inr obtain es d where
        es: "trace s1 = trace (emit [Poll False] s) @ es @ [Sleep d]"
            "\<not> list_ex is_poll es" "\<not> list_ex is_sleep es"
        by blast
      have np: "filter is_poll es = []" and ns: "filter is_sleep es = []"
        using es(2,3) by (simp_all add: list_ex_iff filter_empty_conv)
      have "trace (final_state out) = trace s @ (Poll False # es @ Sleep d # t)"
        using t(1) es(1) by simp
      moreover have "length (filter is_poll (Poll False # es @ Sleep d # t))
                       = Suc (length (filter is_sleep (Poll False # es @ Sleep d # t)))"
        using t(2) np ns by simp
      ultimately show ?thesis by blast
    qed
  qed
qed







text \<open>
  C9, as stated, fails. In a run of one pass that ends at the second evaluation of the loop
  condition, the signal is read twice, once at each evaluation of the loop condition; the
  event immediately before the sleep is the print of the saved message, not a read.
\<close>

theorem no_read_before_sleep_counterexample:
  "map_option (\<lambda>out. trace (final_state out))
     (monitor_account (Suc (Suc 0)) whole_floats (\<lambda>k. 1 \<le> k) (\<lambda>k. good_world) example_account 0
        (start_state fresh_fs))
     = Some (Poll False # fetch_events whole_floats good_world example_account @
             [Wrote ''A.csv'', PrintSaved ''A.csv'' ''2024-05-01 12:00:00'', Sleep 300,
              Poll True]) \<and>
   \<not> polled_around_sleeps
       (Poll False # fetch_events whole_floats good_world example_account @
        [Wrote ''A.csv'', PrintSaved ''A.csv'' ''2024-05-01 12:00:00'', Sleep 300, Poll True])"
  by code_simp

text \<open>
  C9, amended. The monitor reads the shutdown event once in each iteration, as the loop
  condition. A pass that finds it not set does its work without reading it again; when the
  pass completes it ends with its sleep of 300 or 60 seconds, so the event immediately
  before the sleep is never a read, and the read that follows the sleep is the loop
  condition of the next iteration. A run that ends has read the event once for each sleep
  and once more.
\<close>

theorem signal_read_once_per_iteration:
  "(is_set k \<longrightarrow>
      (\<exists>s'. monitor_account (Suc n) fo is_set env a k s = Some (Stopped s') \<and>
            trace s' = trace s @ [Poll True])) \<and>
   (\<not> is_set k \<and> stdout (env k) AtLoopError = None \<longrightarrow>
      (\<exists>es d s'. monitor_account (Suc n) fo is_set env a k s =
                   monitor_account n fo is_set env a (Suc k) s' \<and>
                 trace s' = trace s @ [Poll False] @ es @ [Sleep d] \<and>
                 es \<noteq> [] \<and> \<not> list_ex is_poll es \<and> \<not> list_ex is_sleep es \<and>
                 (d = 300 \<or> d = 60))) \<and>
   (\<not> is_set k \<longrightarrow>
      (\<exists>es d s'. monitor_account (Suc n) fo is_set env a k s =
                   monitor_account n fo is_set env a (Suc k) s' \<and>
                 trace s' = trace s @ [Poll False] @ es @ [Sleep d] \<and>
                 es \<noteq> [] \<and> \<not> list_ex is_poll es \<and> \<not> list_ex is_sleep es \<and>
                 (d = 300 \<or> d = 60)) \<or>
      (\<exists>e es s'. monitor_account (Suc n) fo is_set env a k s = Some (Raised e s') \<and>
                 trace s' = trace s @ [Poll False] @ es \<and>
                 \<not> list_ex is_poll es \<and> \<not> list_ex is_sleep es)) \<and>
   (\<forall>out. monitor_account n fo is_set env a k s = Some out \<longrightarrow>
      (\<exists>t. trace (final_state out) = trace s @ t \<and>
           length (filter is_poll t) = Suc (length (filter is_sleep t))))"
proof -
  let ?s0 = "emit [Poll False] s"
  note b = monitor_body_trace[of fo "env k" a ?s0]
  have completes: "\<And>s1. \<not> is_set k \<Longrightarrow> monitor_body fo (env k) a ?s0 = Inr s1 \<Longrightarrow>
      \<exists>es d s'. monitor_account (Suc n) fo is_set env a k s =
                   monitor_account n fo is_set env a (Suc k) s' \<and>
                 trace s' = trace s @ [Poll False] @ es @ [Sleep d] \<and>
                 es \<noteq> [] \<and> \<not> list_ex is_poll es \<and> \<not> list_ex is_sleep es \<and>
                 (d = 300 \<or> d = 60)"
  proof -
    fix s1 assume ns: "\<not> is_set k" and r: "monitor_body fo (env k) a ?s0 = Inr s1"
    from b[THEN conjunct1] r obtain es d where
      es: "trace s1 = trace ?s0 @ es @ [Sleep d] \<and> es \<noteq> [] \<and>
           \<not> list_ex is_poll es \<and> \<not> list_ex is_sleep es \<and> (d = 300 \<or> d = 60)"
      by blast
    have run: "monitor_account (Suc n) fo is_set env a k s =
                 monitor_account n fo is_set env a (Suc k) s1"
      using ns r by simp
    have tr: "trace s1 = trace s @ [Poll False] @ es @ [Sleep d]"
      using es by simp
    from run tr es show "\<exists>es d s'. monitor_account (Suc n) fo is_set env a k s =
                   monitor_account n fo is_set env a (Suc k) s' \<and>
                 trace s' = trace s @ [Poll False] @ es @ [Sleep d] \<and>
                 es \<noteq> [] \<and> \<not> list_ex is_poll es \<and> \<not> list_ex is_sleep es \<and>
                 (d = 300 \<or> d = 60)"
      by blast
  qed
  have c1: "is_set k \<longrightarrow>
      (\<exists>s'. monitor_account (Suc n) fo is_set env a k s = Some (Stopped s') \<and>
            trace s' = trace s @ [Poll True])"
    by simp
  have c2: "\<not> is_set k \<and> stdout (env k) AtLoopError = None \<longrightarrow>
      (\<exists>es d s'. monitor_account (Suc n) fo is_set env a k s =
                   monitor_account n fo is_set env a (Suc k) s' \<and>
                 trace s' = trace s @ [Poll False] @ es @ [Sleep d] \<and>
                 es \<noteq> [] \<and> \<not> list_ex is_poll es \<and> \<not> list_ex is_sleep es \<and>
                 (d = 300 \<or> d = 60))"
  proof
    assume h: "\<not> is_set k \<and> stdout (env k) AtLoopError = None"
    then obtain s1 where "monitor_body fo (env k) a ?s0 = Inr s1"
      using monitor_body_returns[of "env k" fo a ?s0] by blast
    with h show "\<exists>es d s'. monitor_account (Suc n) fo is_set env a k s =
                   monitor_account n fo is_set env a (Suc k) s' \<and>
                 trace s' = trace s @ [Poll False] @ es @ [Sleep d] \<and>
                 es \<noteq> [] \<and> \<not> list_ex is_poll es \<and> \<not> list_ex is_sleep es \<and>
                 (d = 300 \<or> d = 60)"
      by (intro completes) simp_all
  qed
  have c3: "\<not> is_set k \<longrightarrow>
      (\<exists>es d s'. monitor_account (Suc n) fo is_set env a k s =
                   monitor_account n fo is_set env a (Suc k) s' \<and>
                 trace s' = trace s @ [Poll False] @ es @ [Sleep d] \<and>
                 es \<noteq> [] \<and> \<not> list_ex is_poll es \<and> \<not> list_ex is_sleep es \<and>
                 (d = 300 \<or> d = 60)) \<or>
      (\<exists>e es s'. monitor_account (Suc n) fo is_set env a k s = Some (Raised e s') \<and>
                 trace s' = trace s @ [Poll False] @ es \<and>
                 \<not> list_ex is_poll es \<and> \<not> list_ex is_sleep es)"
  proof
    assume ns: "\<not> is_set k"
    show "(\<exists>es d s'. monitor_account (Suc n) fo is_set env a k s =
                   monitor_account n fo is_set env a (Suc k) s' \<and>
                 trace s' = trace s @ [Poll False] @ es @ [Sleep d] \<and>
                 es \<noteq> [] \<and> \<not> list_ex is_poll es \<and> \<not> list_ex is_sleep es \<and>
                 (d = 300 \<or> d = 60)) \<or>
      (\<exists>e es s'. monitor_account (Suc n) fo is_set env a k s = Some (Raised e s') \<and>
                 trace s' = trace s @ [Poll False] @ es \<and>
                 \<not> list_ex is_poll es \<and> \<not> list_ex is_sleep es)"
    proof (cases "monitor_body fo (env k) a ?s0")
      case (Inr s1)
      from completes[OF ns Inr] show ?thesis by (rule disjI1)
    next
      case (Inl es1)
      obtain e1 s1 where es1: "es1 = (e1, s1)" by (cases es1)
      from b[THEN conjunct2] Inl es1 obtain es where
        es: "trace s1 = trace ?s0 @ es" "\<not> list_ex is_poll es" "\<not> list_ex is_sleep es"
        by blast
      have run: "monitor_account (Suc n) fo is_set env a k s = Some (Raised e1 s1)"
        using ns Inl es1 by simp
      have tr: "trace s1 = trace s @ [Poll False] @ es" using es(1) by simp
      from run tr es(2,3) have
        "\<exists>e es s'. monitor_account (Suc n) fo is_set env a k s = Some (Raised e s') \<and>
                 trace s' = trace s @ [Poll False] @ es \<and>
                 \<not> list_ex is_poll es \<and> \<not> list_ex is_sleep es"
        by blast
      then show ?thesis by (rule disjI2)
    qed
  qed
  have c4: "\<forall>out. monitor_account n fo is_set env a k s = Some out \<longrightarrow>
      (\<exists>t. trace (final_state out) = trace s @ t \<and>
           length (filter is_poll t) = Suc (length (filter is_sleep t)))"
    using monitor_account_polls by blast
  from c1 c2 c3 c4 show ?thesis by (intro conjI)
qed

theorem signal_read_once_per_iteration_witness:
  "(\<exists>es d s'. monitor_account (Suc (Suc 0)) whole_floats (\<lambda>k. 1 \<le> k) (\<lambda>k. good_world)
                 example_account 0 (start_state fresh_fs) =
               monitor_account (Suc 0) whole_floats (\<lambda>k. 1 \<le> k) (\<lambda>k. good_world)
                 example_account (Suc 0) s' \<and>
             trace s' = [Poll False] @ es @ [Sleep d] \<and>
             es \<noteq> [] \<and> \<not> list_ex is_poll es \<and> \<not> list_ex is_sleep es \<and>
             (d = 300 \<or> d = 60)) \<and>
   (\<exists>s'. monitor_account (Suc 0) whole_floats (\<lambda>k. 1 \<le> k) (\<lambda>k. good_world)
           example_account (Suc 0) (start_state fresh_fs) = Some (Stopped s') \<and>
         trace s' = [Poll True])"
proof -
  have quiet: "stdout good_world AtLoopError = None"
    by (simp add: good_world_def working_stdout_def)
  note first = signal_read_once_per_iteration[where is_set = "\<lambda>k. 1 \<le> k" and k = 0
          and fo = whole_floats and env = "\<lambda>k. good_world" and a = example_account
          and n = "Suc 0" and s = "start_state fresh_fs", THEN conjunct2, THEN conjunct1]
  note second = signal_read_once_per_iteration[where is_set = "\<lambda>k. 1 \<le> k" and k = "Suc 0"
          and fo = whole_floats and env = "\<lambda>k. good_world" and a = example_account
          and n = 0 and s = "start_state fresh_fs", THEN conjunct1]
  show ?thesis
    using first second quiet by (simp add: start_state_def)
qed

end
